theory Spec2Isabelle
  imports Main "HOL-Library.Monad_Syntax" "HOL-Library.Sublist"
begin

section \<open>The error values of package errors (errors.go)\<close>

text \<open>
  The package builds chains of error objects on the Go heap: \<open>*MsgCodeErr\<close> (a message,
  a code and a stack), \<open>*StackError\<close> (an embedded error and a stack) and
  \<open>*CauseMsgCodeError\<close> (a cause, a code and a message). \<open>SetCode\<close> writes the
  \<open>code\<close> field of an object in place, so the objects live in an explicit store and are
  named by their addresses.

  \<^item> A value of a pointer type such as \<open>*StackError\<close> is an \<open>addr option\<close>: \<open>None\<close>
    is the nil pointer.
  \<^item> An \<open>error\<close> interface value is one of three things. \<open>NilIface\<close> is the nil interface,
    the only value for which \<open>err == nil\<close> holds. \<open>NilPtr T\<close> is an interface that holds
    a nil pointer of the package's type \<open>T\<close>: it is what a nil \<open>*StackError\<close> or
    \<open>*CauseMsgCodeError\<close> returned by this package becomes when it is passed on as an
    \<open>error\<close>; it is not equal to nil and has the methods of \<open>T\<close>, each of which
    dereferences its receiver. \<open>Ptr a\<close> is an interface that holds a pointer to the object
    at address \<open>a\<close>, whose constructor is its dynamic type. \<open>as_error\<close> is the
    conversion of a pointer to an interface value.
  \<^item> \<open>Foreign\<close> stands for an error of another package, described by what this package
    and \<open>fmt\<close> can observe of it: the text its \<open>Error()\<close> returns, the result of its
    \<open>Code()\<close> when its method set has one, the result of its \<open>Cause()\<close> when its
    method set has one, and the text its \<open>Format\<close> method writes under \<open>%+v\<close> when it
    implements \<open>fmt.Formatter\<close>. It has no \<open>SetCode\<close>. A nil pointer of a type of
    another package is not represented.
  \<^item> A \<open>*stack\<close> is the list of program counters that \<open>callers()\<close> returned, innermost
    frame first. \<open>callers\<close> is not part of errors.go: every constructor takes the stack
    that \<open>callers()\<close> yields at its call as the argument \<open>callers\<close>.
  \<^item> Codes are Go \<open>int\<close>s; the package only stores, copies and compares them.
\<close>

type_synonym addr = nat
type_synonym Frame = nat
type_synonym stack = "Frame list"

datatype ptype = MsgCodeErrT | StackErrorT | CauseMsgCodeErrorT

datatype error = NilIface | NilPtr ptype | Ptr addr

fun as_error :: "ptype \<Rightarrow> addr option \<Rightarrow> error" where
  "as_error T None = NilPtr T"
| "as_error T (Some a) = Ptr a"

datatype node =
    MsgCodeErr int string stack \<comment> \<open>fields \<open>code\<close>, \<open>msg\<close>, \<open>*stack\<close>\<close>
  | StackError error stack \<comment> \<open>embedded fields \<open>error\<close>, \<open>*stack\<close>\<close>
  | CauseMsgCodeError error int string \<comment> \<open>fields \<open>cause\<close>, \<open>code\<close>, \<open>msg\<close>\<close>
  | Foreign string "int option" "error option" "string option"

type_synonym heap = "node list"

definition lookup :: "heap \<Rightarrow> addr \<Rightarrow> node option" where
  "lookup h a = (if a < length h then Some (h ! a) else None)"

text \<open>\<open>&T{...}\<close>: a fresh object behind a fresh pointer.\<close>

definition alloc :: "heap \<Rightarrow> node \<Rightarrow> addr \<times> heap" where
  "alloc h n = (length h, h @ [n])"

text \<open>
  A call yields \<open>None\<close> when it yields no value at all: its recursion never ends (a cycle
  of causes), or it would read an address outside the heap or call a method that the
  dynamic type does not have (neither of which a Go program can do). A nil dereference is
  the value \<open>Inl NilDereference\<close>; a call that returns \<open>v\<close> is \<open>Inr v\<close>.
\<close>

datatype panic = NilDereference

subsection \<open>Method sets\<close>

text \<open>The type assertions \<open>err.(interface{ Code() int })\<close> and
  \<open>err.(interface{ SetCode(int) error })\<close>: they fail on the nil interface and look
  at the dynamic type otherwise, so they succeed on a nil pointer of a type of this
  package.\<close>

fun has_Code :: "node \<Rightarrow> bool" where
  "has_Code (Foreign m c cs f) = (c \<noteq> None)"
| "has_Code _ = True"

fun has_SetCode :: "node \<Rightarrow> bool" where
  "has_SetCode (Foreign m c cs f) = False"
| "has_SetCode _ = True"

definition implements_Code :: "heap \<Rightarrow> error \<Rightarrow> bool" where
  "implements_Code h err = (case err of NilIface \<Rightarrow> False | NilPtr T \<Rightarrow> True
     | Ptr a \<Rightarrow> (case lookup h a of None \<Rightarrow> False | Some n \<Rightarrow> has_Code n))"

definition implements_SetCode :: "heap \<Rightarrow> error \<Rightarrow> bool" where
  "implements_SetCode h err = (case err of NilIface \<Rightarrow> False | NilPtr T \<Rightarrow> True
     | Ptr a \<Rightarrow> (case lookup h a of None \<Rightarrow> False | Some n \<Rightarrow> has_SetCode n))"

subsection \<open>Code and SetCode\<close>

text \<open>
  \<open>Code h x\<close> is the call \<open>x.Code()\<close>, dispatched on the dynamic type.
  \<open>MsgCodeErr.Code\<close> and \<open>CauseMsgCodeError.Code\<close> return the field;
  \<open>StackError.Code\<close> asks the embedded error when that has a \<open>Code\<close> method and
  returns 0 otherwise. Each of the three reads a field of its receiver first, so on a
  nil receiver it panics.
\<close>

partial_function (option) Code :: "heap \<Rightarrow> error \<Rightarrow> (panic + int) option" where
  "Code h x = (case x of NilIface \<Rightarrow> Some (Inl NilDereference)
     | NilPtr T \<Rightarrow> Some (Inl NilDereference)
     | Ptr a \<Rightarrow> (case lookup h a of None \<Rightarrow> None
       | Some (MsgCodeErr code msg st) \<Rightarrow> Some (Inr code)
       | Some (StackError err st) \<Rightarrow>
           if implements_Code h err then Code h err else Some (Inr 0)
       | Some (CauseMsgCodeError cause code msg) \<Rightarrow> Some (Inr code)
       | Some (Foreign m c cs f) \<Rightarrow> (case c of None \<Rightarrow> None | Some v \<Rightarrow> Some (Inr v))))"

declare Code.simps [code]

text \<open>
  \<open>SetCode h x code\<close> is the call \<open>x.SetCode(code)\<close>: it returns the error value that
  the method returns together with the heap after the call. \<open>MsgCodeErr.SetCode\<close> and
  \<open>CauseMsgCodeError.SetCode\<close> assign the field and return the receiver;
  \<open>StackError.SetCode\<close> calls the embedded error's \<open>SetCode\<close> when it has one, drops
  its result, and returns the receiver. On a nil receiver each of them panics.
\<close>

partial_function (option) SetCode ::
    "heap \<Rightarrow> error \<Rightarrow> int \<Rightarrow> (panic + error \<times> heap) option" where
  "SetCode h x code = (case x of NilIface \<Rightarrow> Some (Inl NilDereference)
     | NilPtr T \<Rightarrow> Some (Inl NilDereference)
     | Ptr a \<Rightarrow> (case lookup h a of None \<Rightarrow> None
       | Some (MsgCodeErr c msg st) \<Rightarrow> Some (Inr (Ptr a, h[a := MsgCodeErr code msg st]))
       | Some (StackError err st) \<Rightarrow>
           if implements_SetCode h err
           then do { r \<leftarrow> SetCode h err code;
                     Some (case r of Inl p \<Rightarrow> Inl p | Inr v \<Rightarrow> Inr (Ptr a, snd v)) }
           else Some (Inr (Ptr a, h))
       | Some (CauseMsgCodeError cause c msg) \<Rightarrow>
           Some (Inr (Ptr a, h[a := CauseMsgCodeError cause code msg]))
       | Some (Foreign m c cs f) \<Rightarrow> None))"

declare SetCode.simps [code]

text \<open>The assignment \<open>x.code = c\<close> on an object: only \<open>MsgCodeErr\<close> and
  \<open>CauseMsgCodeError\<close> have the field.\<close>

fun assign_code :: "int \<Rightarrow> node \<Rightarrow> node" where
  "assign_code c (MsgCodeErr code msg st) = MsgCodeErr c msg st"
| "assign_code c (CauseMsgCodeError cause code msg) = CauseMsgCodeError cause c msg"
| "assign_code c n = n"

subsection \<open>Constructors\<close>

text \<open>
  \<open>ErrCodeNotDefined\<close> is a constant of the package that errors.go uses and does not
  declare; the functions that mention it take its value as their first argument.
  \<open>fmt.Sprintf\<close> is the argument \<open>Sprintf\<close> of the formatting variants. Each function
  returns its Go result and the heap after the call.
\<close>

definition New :: "int \<Rightarrow> heap \<Rightarrow> stack \<Rightarrow> string \<Rightarrow> addr \<times> heap" where
  "New ErrCodeNotDefined h callers message =
     alloc h (MsgCodeErr ErrCodeNotDefined message callers)"

text \<open>\<open>Errorf\<close> names only \<open>msg\<close> and \<open>stack\<close> in its composite literal: \<open>code\<close>
  is the zero value of \<open>int\<close>.\<close>

definition Errorf ::
  "(string \<Rightarrow> 'a list \<Rightarrow> string) \<Rightarrow> heap \<Rightarrow> stack \<Rightarrow> string \<Rightarrow> 'a list \<Rightarrow> addr \<times> heap" where
  "Errorf Sprintf h callers format args =
     alloc h (MsgCodeErr 0 (Sprintf format args) callers)"

text \<open>\<open>WithStack\<close> tests \<open>err == nil\<close> and stores every other value, a nil pointer
  held in an interface included.\<close>

definition WithStack :: "heap \<Rightarrow> stack \<Rightarrow> error \<Rightarrow> addr option \<times> heap" where
  "WithStack h callers err =
     (case err of NilIface \<Rightarrow> (None, h)
      | _ \<Rightarrow> (case alloc h (StackError err callers) of (w, h') \<Rightarrow> (Some w, h')))"

text \<open>The three lines that \<open>Wrap\<close>, \<open>Wrapf\<close>, \<open>WithMessage\<close> and
  \<open>WithMessagef\<close> share: \<open>errCode\<close> is what the cause's \<open>Code()\<close> returns when it
  has the method, and \<open>ErrCodeNotDefined\<close> otherwise. The call panics on a nil
  receiver.\<close>

definition errCode_of :: "int \<Rightarrow> heap \<Rightarrow> error \<Rightarrow> (panic + int) option" where
  "errCode_of ErrCodeNotDefined h err =
     (if implements_Code h err then Code h err else Some (Inr ErrCodeNotDefined))"

definition Wrap ::
    "int \<Rightarrow> heap \<Rightarrow> stack \<Rightarrow> error \<Rightarrow> string \<Rightarrow> (panic + addr option \<times> heap) option" where
  "Wrap ErrCodeNotDefined h callers err message =
     (case err of NilIface \<Rightarrow> Some (Inr (None, h))
      | _ \<Rightarrow> do {
          r \<leftarrow> errCode_of ErrCodeNotDefined h err;
          case r of Inl p \<Rightarrow> Some (Inl p)
          | Inr errCode \<Rightarrow>
              let (err', h1) = alloc h (CauseMsgCodeError err errCode message);
                  (w, h2) = alloc h1 (StackError (Ptr err') callers)
              in Some (Inr (Some w, h2)) })"

definition Wrapf ::
  "int \<Rightarrow> (string \<Rightarrow> 'a list \<Rightarrow> string) \<Rightarrow> heap \<Rightarrow> stack \<Rightarrow> error \<Rightarrow> string \<Rightarrow> 'a list
     \<Rightarrow> (panic + addr option \<times> heap) option" where
  "Wrapf ErrCodeNotDefined Sprintf h callers err format args =
     (case err of NilIface \<Rightarrow> Some (Inr (None, h))
      | _ \<Rightarrow> do {
          r \<leftarrow> errCode_of ErrCodeNotDefined h err;
          case r of Inl p \<Rightarrow> Some (Inl p)
          | Inr errCode \<Rightarrow>
              let (err', h1) = alloc h (CauseMsgCodeError err errCode (Sprintf format args));
                  (w, h2) = alloc h1 (StackError (Ptr err') callers)
              in Some (Inr (Some w, h2)) })"

definition WithMessage ::
    "int \<Rightarrow> heap \<Rightarrow> error \<Rightarrow> string \<Rightarrow> (panic + addr option \<times> heap) option" where
  "WithMessage ErrCodeNotDefined h err message =
     (case err of NilIface \<Rightarrow> Some (Inr (None, h))
      | _ \<Rightarrow> do {
          r \<leftarrow> errCode_of ErrCodeNotDefined h err;
          case r of Inl p \<Rightarrow> Some (Inl p)
          | Inr errCode \<Rightarrow>
              let (w, h1) = alloc h (CauseMsgCodeError err errCode message)
              in Some (Inr (Some w, h1)) })"

definition WithMessagef ::
  "int \<Rightarrow> (string \<Rightarrow> 'a list \<Rightarrow> string) \<Rightarrow> heap \<Rightarrow> error \<Rightarrow> string \<Rightarrow> 'a list
     \<Rightarrow> (panic + addr option \<times> heap) option" where
  "WithMessagef ErrCodeNotDefined Sprintf h err format args =
     (case err of NilIface \<Rightarrow> Some (Inr (None, h))
      | _ \<Rightarrow> do {
          r \<leftarrow> errCode_of ErrCodeNotDefined h err;
          case r of Inl p \<Rightarrow> Some (Inl p)
          | Inr errCode \<Rightarrow>
              let (w, h1) = alloc h (CauseMsgCodeError err errCode (Sprintf format args))
              in Some (Inr (Some w, h1)) })"

subsection \<open>Error, Cause and Unwrap\<close>

text \<open>
  \<open>Error h err\<close> is the call \<open>err.Error()\<close> on an interface value. It panics on the
  nil interface and on a nil receiver. \<open>MsgCodeErr.Error\<close> returns \<open>msg\<close>;
  \<open>StackError\<close> has the method of its embedded \<open>error\<close>;
  \<open>CauseMsgCodeError.Error\<close> is \<open>w.msg + ": " + w.cause.Error()\<close>.
\<close>

partial_function (option) Error :: "heap \<Rightarrow> error \<Rightarrow> (panic + string) option" where
  "Error h err = (case err of NilIface \<Rightarrow> Some (Inl NilDereference)
     | NilPtr T \<Rightarrow> Some (Inl NilDereference)
     | Ptr a \<Rightarrow> (case lookup h a of None \<Rightarrow> None
       | Some (MsgCodeErr code msg st) \<Rightarrow> Some (Inr msg)
       | Some (StackError e st) \<Rightarrow> Error h e
       | Some (CauseMsgCodeError cause code msg) \<Rightarrow>
           do { r \<leftarrow> Error h cause;
                Some (case r of Inl p \<Rightarrow> Inl p | Inr s \<Rightarrow> Inr (msg @ '': '' @ s)) }
       | Some (Foreign m c cs f) \<Rightarrow> Some (Inr m)))"

declare Error.simps [code]

text \<open>The accessors of the two wrapper types, on a receiver \<open>w\<close> that points to an
  object; \<open>None\<close> when the object at \<open>w\<close> is not of the receiver's type.\<close>

definition StackError_Cause :: "heap \<Rightarrow> addr \<Rightarrow> error option" where
  "StackError_Cause h w =
     (case lookup h w of Some (StackError err st) \<Rightarrow> Some err | _ \<Rightarrow> None)"

definition StackError_Unwrap :: "heap \<Rightarrow> addr \<Rightarrow> error option" where
  "StackError_Unwrap h w =
     (case lookup h w of Some (StackError err st) \<Rightarrow> Some err | _ \<Rightarrow> None)"

definition CauseMsgCodeError_Cause :: "heap \<Rightarrow> addr \<Rightarrow> error option" where
  "CauseMsgCodeError_Cause h w =
     (case lookup h w of Some (CauseMsgCodeError cause code msg) \<Rightarrow> Some cause | _ \<Rightarrow> None)"

definition CauseMsgCodeError_Unwrap :: "heap \<Rightarrow> addr \<Rightarrow> error option" where
  "CauseMsgCodeError_Unwrap h w =
     (case lookup h w of Some (CauseMsgCodeError cause code msg) \<Rightarrow> Some cause | _ \<Rightarrow> None)"

text \<open>
  \<open>causer h a\<close> is the type assertion \<open>err.(causer)\<close> followed by \<open>cause.Cause()\<close>
  on a pointer to an object: \<open>None\<close> when the assertion fails, else the error that the
  method returns.
\<close>

definition causer :: "heap \<Rightarrow> addr \<Rightarrow> error option" where
  "causer h a = (case lookup h a of None \<Rightarrow> None
     | Some (MsgCodeErr code msg st) \<Rightarrow> None
     | Some (StackError err st) \<Rightarrow> StackError_Cause h a
     | Some (CauseMsgCodeError cause code msg) \<Rightarrow> CauseMsgCodeError_Cause h a
     | Some (Foreign m c cs f) \<Rightarrow> cs)"

text \<open>
  The loop of \<open>Cause\<close>: \<open>for err != nil\<close>, leave at the first value that is not a
  \<open>causer\<close>, else go on with its cause. A nil \<open>*MsgCodeErr\<close> in the interface has
  no \<open>Cause\<close> method and is returned; a nil \<open>*StackError\<close> or
  \<open>*CauseMsgCodeError\<close> has the method, and the call \<open>cause.Cause()\<close> reads a field
  of the nil receiver.
\<close>

partial_function (option) Cause :: "heap \<Rightarrow> error \<Rightarrow> (panic + error) option" where
  "Cause h err = (case err of NilIface \<Rightarrow> Some (Inr err)
     | NilPtr T \<Rightarrow> (if T = MsgCodeErrT then Some (Inr err) else Some (Inl NilDereference))
     | Ptr a \<Rightarrow> (case lookup h a of None \<Rightarrow> None
        | Some n \<Rightarrow> (case causer h a of None \<Rightarrow> Some (Inr err)
           | Some cause \<Rightarrow> Cause h cause)))"

declare Cause.simps [code]

text \<open>Where the loop of \<open>Cause\<close> stops: at nil, at a nil \<open>*MsgCodeErr\<close>, or at an
  object that is no \<open>causer\<close>.\<close>

definition root :: "heap \<Rightarrow> error \<Rightarrow> bool" where
  "root h y = (case y of NilIface \<Rightarrow> True | NilPtr T \<Rightarrow> T = MsgCodeErrT
     | Ptr b \<Rightarrow> b < length h \<and> causer h b = None)"

subsection \<open>Format\<close>

text \<open>
  The \<open>Format\<close> methods write to an \<open>fmt.State\<close>; the model returns the text
  written. \<open>plusFlag\<close> is \<open>s.Flag('+')\<close>.
\<close>

definition newline :: string where
  "newline = [CHR 0x0A]"

text \<open>
  Modelled from the spec: the method \<open>(*stack).Format\<close> and \<open>Frame\<close>'s own
  formatting are not in errors.go. The spec has the extended form of an error end with
  "the stack trace rendered frame-by-frame in detailed mode", the frames in capture order,
  and gives the detailed text of a frame as function name, newline, tab, \<open>path:line\<close>.
  \<open>Frame_detail\<close> is the argument that turns a program counter into that text; each
  frame is written after a newline. errors.go calls the method only under verb \<open>v\<close> with
  the flag \<open>+\<close>.
\<close>

definition stack_Format :: "(Frame \<Rightarrow> string) \<Rightarrow> stack \<Rightarrow> string" where
  "stack_Format Frame_detail st = concat (map (\<lambda>f. newline @ Frame_detail f) st)"

text \<open>
  \<open>Fprintf_plus_v h err\<close> is the text of \<open>fmt.Fprintf(s, "%+v", err)\<close>.
  \<^item> For the nil interface \<open>fmt\<close> writes \<open><nil>\<close>.
  \<^item> A value that implements \<open>fmt.Formatter\<close> is handed to its \<open>Format\<close> method.
    The three types of this package implement it, and the extended branch of each method
    is written out here, since the methods and \<open>fmt\<close> call each other;
    \<open>MsgCodeErr_Format\<close>, \<open>StackError_Format\<close> and \<open>CauseMsgCodeError_Format\<close>
    below are the whole methods. On a nil receiver each method panics before it writes
    (it reads \<open>f.msg\<close>, or calls \<open>w.Cause()\<close>); \<open>fmt\<close> recovers from a panic of a
    method whose receiver is a nil pointer and writes \<open><nil>\<close>.
  \<^item> An error of another package is written by its own \<open>Format\<close> method when it
    implements \<open>fmt.Formatter\<close>, and as its \<open>Error()\<close> text otherwise.
\<close>

partial_function (option) Fprintf_plus_v :: "(Frame \<Rightarrow> string) \<Rightarrow> heap \<Rightarrow> error \<Rightarrow> string option" where
  "Fprintf_plus_v Frame_detail h err = (case err of NilIface \<Rightarrow> Some ''<nil>''
     | NilPtr T \<Rightarrow> Some ''<nil>''
     | Ptr a \<Rightarrow> (case lookup h a of None \<Rightarrow> None
       | Some (MsgCodeErr code msg st) \<Rightarrow> Some (msg @ stack_Format Frame_detail st)
       | Some (StackError e st) \<Rightarrow>
           do { c \<leftarrow> Fprintf_plus_v Frame_detail h e;
                Some (c @ stack_Format Frame_detail st) }
       | Some (CauseMsgCodeError cause code msg) \<Rightarrow>
           do { c \<leftarrow> Fprintf_plus_v Frame_detail h cause;
                Some (c @ newline @ msg) }
       | Some (Foreign m c cs f) \<Rightarrow> (case f of None \<Rightarrow> Some m | Some shown \<Rightarrow> Some shown)))"

declare Fprintf_plus_v.simps [code]

text \<open>The methods, on a receiver that points to an object. \<open>Quote\<close> is the text of
  \<open>fmt.Fprintf(s, "%q", x)\<close> for a string \<open>x\<close>. A verb outside the \<open>switch\<close>
  writes nothing.\<close>

definition MsgCodeErr_Format ::
  "(string \<Rightarrow> string) \<Rightarrow> (Frame \<Rightarrow> string) \<Rightarrow> heap \<Rightarrow> addr \<Rightarrow> bool \<Rightarrow> char
     \<Rightarrow> (panic + string) option" where
  "MsgCodeErr_Format Quote Frame_detail h f plusFlag verb =
     (case lookup h f of
        Some (MsgCodeErr code msg st) \<Rightarrow>
          if verb = CHR ''v'' \<and> plusFlag then Some (Inr (msg @ stack_Format Frame_detail st))
          else if verb = CHR ''v'' \<or> verb = CHR ''s'' then Some (Inr msg)
          else if verb = CHR ''q'' then Some (Inr (Quote msg))
          else Some (Inr [])
      | _ \<Rightarrow> None)"

definition StackError_Format ::
  "(string \<Rightarrow> string) \<Rightarrow> (Frame \<Rightarrow> string) \<Rightarrow> heap \<Rightarrow> addr \<Rightarrow> bool \<Rightarrow> char
     \<Rightarrow> (panic + string) option" where
  "StackError_Format Quote Frame_detail h w plusFlag verb =
     (case lookup h w of
        Some (StackError err st) \<Rightarrow>
          if verb = CHR ''v'' \<and> plusFlag then
            do { c \<leftarrow> Fprintf_plus_v Frame_detail h err;
                 Some (Inr (c @ stack_Format Frame_detail st)) }
          else if verb = CHR ''v'' \<or> verb = CHR ''s'' then Error h (Ptr w)
          else if verb = CHR ''q'' then
            do { r \<leftarrow> Error h (Ptr w);
                 Some (case r of Inl p \<Rightarrow> Inl p | Inr s \<Rightarrow> Inr (Quote s)) }
          else Some (Inr [])
      | _ \<Rightarrow> None)"

definition CauseMsgCodeError_Format ::
  "(Frame \<Rightarrow> string) \<Rightarrow> heap \<Rightarrow> addr \<Rightarrow> bool \<Rightarrow> char \<Rightarrow> (panic + string) option" where
  "CauseMsgCodeError_Format Frame_detail h w plusFlag verb =
     (case lookup h w of
        Some (CauseMsgCodeError cause code msg) \<Rightarrow>
          if verb = CHR ''v'' \<and> plusFlag then
            do { c \<leftarrow> Fprintf_plus_v Frame_detail h cause;
                 Some (Inr (c @ newline @ msg)) }
          else if verb = CHR ''v'' \<or> verb = CHR ''s'' \<or> verb = CHR ''q'' then Error h (Ptr w)
          else Some (Inr [])
      | _ \<Rightarrow> None)"

subsection \<open>Heaps that the package can meet\<close>

text \<open>
  Every object is built from errors that exist already, and no field but \<open>code\<close> is
  ever assigned: an object holds only errors that are older than itself. On such a heap
  no chain of causes has a cycle and no pointer leaves the heap. \<open>older (length h) x\<close>
  says that \<open>x\<close> is an error value of the heap \<open>h\<close>.
\<close>

fun held :: "node \<Rightarrow> error list" where
  "held (MsgCodeErr code msg st) = []"
| "held (StackError err st) = [err]"
| "held (CauseMsgCodeError cause code msg) = [cause]"
| "held (Foreign m c cs f) = (case cs of None \<Rightarrow> [] | Some cause \<Rightarrow> [cause])"

definition older :: "addr \<Rightarrow> error \<Rightarrow> bool" where
  "older a err = (case err of Ptr b \<Rightarrow> b < a | _ \<Rightarrow> True)"

definition wf_heap :: "heap \<Rightarrow> bool" where
  "wf_heap h = list_all (\<lambda>a. list_all (older a) (held (h ! a))) [0..<length h]"

text \<open>A heap on which no object holds a nil pointer in an interface. The constructors
  keep it so as long as no nil pointer is passed on to them as an \<open>error\<close>.\<close>

fun is_NilPtr :: "error \<Rightarrow> bool" where
  "is_NilPtr (NilPtr T) = True"
| "is_NilPtr _ = False"

definition no_nil_pointers :: "heap \<Rightarrow> bool" where
  "no_nil_pointers h = list_all (\<lambda>n. list_all (\<lambda>x. \<not> is_NilPtr x) (held n)) h"

subsection \<open>The layers of a chain\<close>

text \<open>
  What each object of a chain contributes to the extended form, listed from the outermost
  object inwards: a message, or a stack. A \<open>MsgCodeErr\<close> is a message with a stack on
  top of it. The chain ends at a \<open>MsgCodeErr\<close>, at nil (a nil interface or a nil
  pointer), or at an error of another package, which counts as one message: the text that
  \<open>fmt\<close> writes for it.
\<close>

datatype layer = Message string | Stack stack

partial_function (option) layers :: "heap \<Rightarrow> error \<Rightarrow> layer list option" where
  "layers h err = (case err of NilIface \<Rightarrow> Some [Message ''<nil>'']
     | NilPtr T \<Rightarrow> Some [Message ''<nil>'']
     | Ptr a \<Rightarrow> (case lookup h a of None \<Rightarrow> None
       | Some (MsgCodeErr code msg st) \<Rightarrow> Some [Stack st, Message msg]
       | Some (StackError e st) \<Rightarrow> do { ls \<leftarrow> layers h e; Some (Stack st # ls) }
       | Some (CauseMsgCodeError cause code msg) \<Rightarrow>
           do { ls \<leftarrow> layers h cause; Some (Message msg # ls) }
       | Some (Foreign m c cs f) \<Rightarrow>
           Some [Message (case f of None \<Rightarrow> m | Some shown \<Rightarrow> shown)]))"

declare layers.simps [code]

fun layer_lines :: "(Frame \<Rightarrow> string) \<Rightarrow> layer \<Rightarrow> string list" where
  "layer_lines Frame_detail (Message m) = [m]"
| "layer_lines Frame_detail (Stack st) = map Frame_detail st"

definition chain_lines :: "(Frame \<Rightarrow> string) \<Rightarrow> layer list \<Rightarrow> string list" where
  "chain_lines Frame_detail ls = concat (map (layer_lines Frame_detail) (rev ls))"

fun join_lines :: "string list \<Rightarrow> string" where
  "join_lines [] = []"
| "join_lines [l] = l"
| "join_lines (l # ls) = l @ newline @ join_lines ls"

text \<open>\<open>find_after x out\<close>: what follows the first occurrence of \<open>x\<close> in \<open>out\<close>.
  \<open>appears_before x y out\<close>: some occurrence of \<open>x\<close> in \<open>out\<close> ends before an
  occurrence of \<open>y\<close> starts.\<close>

fun find_after :: "string \<Rightarrow> string \<Rightarrow> string option" where
  "find_after x [] = (if x = [] then Some [] else None)"
| "find_after x (c # cs) =
     (if prefix x (c # cs) then Some (drop (length x) (c # cs)) else find_after x cs)"

definition appears_before :: "string \<Rightarrow> string \<Rightarrow> string \<Rightarrow> bool" where
  "appears_before x y out =
     (case find_after x out of None \<Rightarrow> False | Some rest \<Rightarrow> find_after y rest \<noteq> None)"

text \<open>A sample \<open>Frame_detail\<close> for the worked examples: three program counters and
  the functions they lie in.\<close>

definition sample_Frame_detail :: "Frame \<Rightarrow> string" where
  "sample_Frame_detail pc =
     (if pc = 1 then ''main.f'' else if pc = 2 then ''main.g'' else ''main.main'')"

text \<open>
  Modelled from the spec: the declaration of \<open>ErrCodeNotDefined\<close> is not in errors.go.
  The spec calls it the sentinel "not defined" code and writes it as 0: a stack-annotated
  node yields "0/sentinel" for a cause without a code, and a missing capability defers to
  the "sentinel code 0/undefined". \<open>StackError.Code\<close> returns the literal 0 in that case.
\<close>

definition ErrCodeNotDefined :: int where
  "ErrCodeNotDefined = 0"

section \<open>Heap lemmas\<close>

lemma lookup_Some_iff: "lookup h a = Some n \<longleftrightarrow> a < length h \<and> h ! a = n"
  by (simp add: lookup_def)

lemma lookup_append_old: "a < length h \<Longrightarrow> lookup (h @ xs) a = lookup h a"
  by (simp add: lookup_def nth_append)

lemma lookup_append_new: "lookup (h @ [n]) (length h) = Some n"
  by (simp add: lookup_def)

lemma lookup_wrapped:
  "lookup (h @ [x, y]) (length h) = Some x"
  "lookup (h @ [x, y]) (Suc (length h)) = Some y"
  "a < length h \<Longrightarrow> lookup (h @ [x, y]) a = lookup h a"
  by (simp_all add: lookup_def nth_append)

lemma older_simps:
  "older a NilIface" "older a (NilPtr T)" "older a (Ptr b) \<longleftrightarrow> b < a"
  by (simp_all add: older_def)

lemma older_mono: "older a x \<Longrightarrow> a \<le> b \<Longrightarrow> older b x"
  by (cases x) (simp_all add: older_def)

lemma wf_heap_iff:
  "wf_heap h \<longleftrightarrow> (\<forall>a<length h. \<forall>e\<in>set (held (h ! a)). older a e)"
  by (auto simp: wf_heap_def list_all_iff)

lemma wf_heap_held: "wf_heap h \<Longrightarrow> lookup h a = Some n \<Longrightarrow> x \<in> set (held n) \<Longrightarrow> older a x"
  by (auto simp: wf_heap_iff lookup_Some_iff)

lemma wf_heap_alloc:
  "wf_heap h \<Longrightarrow> list_all (older (length h)) (held n) \<Longrightarrow> wf_heap (h @ [n])"
  by (auto simp: wf_heap_iff list_all_iff nth_append less_Suc_eq)

lemma wf_heap_update:
  "wf_heap h \<Longrightarrow> held n = held (h ! a) \<Longrightarrow> wf_heap (h[a := n])"
  unfolding wf_heap_iff
proof (intro allI impI ballI)
  fix b e
  assume wf: "\<forall>a<length h. \<forall>e\<in>set (held (h ! a)). older a e"
    and n: "held n = held (h ! a)"
    and b: "b < length (h[a := n])" and e: "e \<in> set (held (h[a := n] ! b))"
  have "held (h[a := n] ! b) = held (h ! b)"
    using b n by (cases "b = a") simp_all
  then show "older b e" using wf b e by simp
qed

lemma no_nil_pointers_held:
  "no_nil_pointers h \<Longrightarrow> lookup h a = Some n \<Longrightarrow> x \<in> set (held n) \<Longrightarrow> \<not> is_NilPtr x"
  by (auto simp: no_nil_pointers_def list_all_iff lookup_Some_iff)

text \<open>Induction along the chains of a heap: a property of the nil values that passes
  from the errors an object holds to the object holds of every error value of the heap.\<close>

lemma heap_induct:
  assumes wf: "wf_heap h" and x: "older (length h) x"
    and nil: "P NilIface" and nilptr: "\<And>T. P (NilPtr T)"
    and obj: "\<And>a n. lookup h a = Some n \<Longrightarrow>
                (\<And>y. y \<in> set (held n) \<Longrightarrow> older a y \<and> P y) \<Longrightarrow> P (Ptr a)"
  shows "P x"
proof -
  have ptr: "a < length h \<Longrightarrow> P (Ptr a)" for a
  proof (induction a rule: less_induct)
    case (less a)
    then obtain n where n: "lookup h a = Some n" by (simp add: lookup_def)
    show ?case
    proof (rule obj [OF n])
      fix y assume y: "y \<in> set (held n)"
      have o: "older a y" using wf n y by (rule wf_heap_held)
      have "P y"
      proof (cases y)
        case (Ptr b)
        then have "b < a" using o by (simp add: older_def)
        then show ?thesis using less Ptr by simp
      qed (simp_all add: nil nilptr)
      then show "older a y \<and> P y" using o by simp
    qed
  qed
  show ?thesis using x by (cases x) (simp_all add: nil nilptr ptr older_def)
qed

subsection \<open>One step of each call\<close>

lemma Code_Nil: "Code h NilIface = Some (Inl NilDereference)"
  by (subst Code.simps) simp

lemma Code_NilPtr: "Code h (NilPtr T) = Some (Inl NilDereference)"
  by (subst Code.simps) simp

lemma Code_MsgCodeErr:
  "lookup h a = Some (MsgCodeErr code msg st) \<Longrightarrow> Code h (Ptr a) = Some (Inr code)"
  by (subst Code.simps) simp

lemma Code_CauseMsgCodeError:
  "lookup h a = Some (CauseMsgCodeError cause code msg) \<Longrightarrow> Code h (Ptr a) = Some (Inr code)"
  by (subst Code.simps) simp

lemma Code_StackError:
  "lookup h a = Some (StackError err st) \<Longrightarrow>
     Code h (Ptr a) = (if implements_Code h err then Code h err else Some (Inr 0))"
  by (subst Code.simps) simp

lemma Code_Foreign:
  "lookup h a = Some (Foreign m c cs f) \<Longrightarrow>
     Code h (Ptr a) = (case c of None \<Rightarrow> None | Some v \<Rightarrow> Some (Inr v))"
  by (subst Code.simps) simp

lemma SetCode_Nil: "SetCode h NilIface c = Some (Inl NilDereference)"
  by (subst SetCode.simps) simp

lemma SetCode_NilPtr: "SetCode h (NilPtr T) c = Some (Inl NilDereference)"
  by (subst SetCode.simps) simp

lemma SetCode_MsgCodeErr:
  "lookup h a = Some (MsgCodeErr code msg st) \<Longrightarrow>
     SetCode h (Ptr a) c = Some (Inr (Ptr a, h[a := MsgCodeErr c msg st]))"
  by (subst SetCode.simps) simp

lemma SetCode_CauseMsgCodeError:
  "lookup h a = Some (CauseMsgCodeError cause code msg) \<Longrightarrow>
     SetCode h (Ptr a) c = Some (Inr (Ptr a, h[a := CauseMsgCodeError cause c msg]))"
  by (subst SetCode.simps) simp

lemma SetCode_StackError:
  "lookup h a = Some (StackError err st) \<Longrightarrow>
     SetCode h (Ptr a) c =
       (if implements_SetCode h err
        then (case SetCode h err c of None \<Rightarrow> None
              | Some (Inl p) \<Rightarrow> Some (Inl p)
              | Some (Inr v) \<Rightarrow> Some (Inr (Ptr a, snd v)))
        else Some (Inr (Ptr a, h)))"
  by (subst SetCode.simps) (simp split: option.splits sum.splits)

lemma Error_Nil: "Error h NilIface = Some (Inl NilDereference)"
  by (subst Error.simps) simp

lemma Error_NilPtr: "Error h (NilPtr T) = Some (Inl NilDereference)"
  by (subst Error.simps) simp

lemma Error_Ptr:
  "Error h (Ptr a) = (case lookup h a of None \<Rightarrow> None
       | Some (MsgCodeErr code msg st) \<Rightarrow> Some (Inr msg)
       | Some (StackError e st) \<Rightarrow> Error h e
       | Some (CauseMsgCodeError cause code msg) \<Rightarrow>
           do { r \<leftarrow> Error h cause;
                Some (case r of Inl p \<Rightarrow> Inl p | Inr s \<Rightarrow> Inr (msg @ '': '' @ s)) }
       | Some (Foreign m c cs f) \<Rightarrow> Some (Inr m))"
  by (subst Error.simps) simp

lemma Cause_Nil: "Cause h NilIface = Some (Inr NilIface)"
  by (subst Cause.simps) simp

lemma Cause_NilPtr:
  "Cause h (NilPtr T) =
     (if T = MsgCodeErrT then Some (Inr (NilPtr T)) else Some (Inl NilDereference))"
  by (subst Cause.simps) simp

lemma Cause_Ptr:
  "Cause h (Ptr a) = (case lookup h a of None \<Rightarrow> None
        | Some n \<Rightarrow> (case causer h a of None \<Rightarrow> Some (Inr (Ptr a))
           | Some cause \<Rightarrow> Cause h cause))"
  by (subst Cause.simps) simp

lemma Fprintf_plus_v_Nil: "Fprintf_plus_v fd h NilIface = Some ''<nil>''"
  by (subst Fprintf_plus_v.simps) simp

lemma Fprintf_plus_v_NilPtr: "Fprintf_plus_v fd h (NilPtr T) = Some ''<nil>''"
  by (subst Fprintf_plus_v.simps) simp

lemma Fprintf_plus_v_Ptr:
  "Fprintf_plus_v fd h (Ptr a) = (case lookup h a of None \<Rightarrow> None
       | Some (MsgCodeErr code msg st) \<Rightarrow> Some (msg @ stack_Format fd st)
       | Some (StackError e st) \<Rightarrow>
           do { c \<leftarrow> Fprintf_plus_v fd h e; Some (c @ stack_Format fd st) }
       | Some (CauseMsgCodeError cause code msg) \<Rightarrow>
           do { c \<leftarrow> Fprintf_plus_v fd h cause; Some (c @ newline @ msg) }
       | Some (Foreign m c cs f) \<Rightarrow> (case f of None \<Rightarrow> Some m | Some shown \<Rightarrow> Some shown))"
  by (subst Fprintf_plus_v.simps) simp

lemma layers_Nil: "layers h NilIface = Some [Message ''<nil>'']"
  by (subst layers.simps) simp

lemma layers_NilPtr: "layers h (NilPtr T) = Some [Message ''<nil>'']"
  by (subst layers.simps) simp

lemma layers_Ptr:
  "layers h (Ptr a) = (case lookup h a of None \<Rightarrow> None
       | Some (MsgCodeErr code msg st) \<Rightarrow> Some [Stack st, Message msg]
       | Some (StackError e st) \<Rightarrow> do { ls \<leftarrow> layers h e; Some (Stack st # ls) }
       | Some (CauseMsgCodeError cause code msg) \<Rightarrow>
           do { ls \<leftarrow> layers h cause; Some (Message msg # ls) }
       | Some (Foreign m c cs f) \<Rightarrow>
           Some [Message (case f of None \<Rightarrow> m | Some shown \<Rightarrow> shown)])"
  by (subst layers.simps) simp

lemma causer_StackError:
  "lookup h a = Some (StackError err st) \<Longrightarrow> causer h a = Some err"
  by (simp add: causer_def StackError_Cause_def)

lemma causer_CauseMsgCodeError:
  "lookup h a = Some (CauseMsgCodeError cause code msg) \<Longrightarrow> causer h a = Some cause"
  by (simp add: causer_def CauseMsgCodeError_Cause_def)

lemma causer_held:
  "lookup h a = Some n \<Longrightarrow> causer h a = Some c \<Longrightarrow> c \<in> set (held n)"
  by (cases n) (auto simp: causer_def StackError_Cause_def CauseMsgCodeError_Cause_def)

subsection \<open>A call reads only what its argument reaches\<close>

lemma implements_Code_frame:
  "\<forall>b<n. lookup h' b = lookup h b \<Longrightarrow> older n x \<Longrightarrow> implements_Code h' x = implements_Code h x"
  by (cases x) (simp_all add: implements_Code_def older_def)

lemma implements_SetCode_frame:
  "\<forall>b<n. lookup h' b = lookup h b \<Longrightarrow> older n x
     \<Longrightarrow> implements_SetCode h' x = implements_SetCode h x"
  by (cases x) (simp_all add: implements_SetCode_def older_def)

lemma Code_frame:
  assumes wf: "wf_heap h" and n: "n \<le> length h"
    and agree: "\<forall>b<n. lookup h' b = lookup h b" and x: "older n x"
  shows "Code h' x = Code h x"
proof -
  have "older n x \<longrightarrow> Code h' x = Code h x"
  proof (rule heap_induct [OF wf older_mono [OF x n]])
    fix a m
    assume m: "lookup h a = Some m"
      and ih: "\<And>y. y \<in> set (held m) \<Longrightarrow> older a y \<and> (older n y \<longrightarrow> Code h' y = Code h y)"
    show "older n (Ptr a) \<longrightarrow> Code h' (Ptr a) = Code h (Ptr a)"
    proof
      assume "older n (Ptr a)"
      then have a: "a < n" by (simp add: older_def)
      then have m': "lookup h' a = Some m" using agree m by simp
      show "Code h' (Ptr a) = Code h (Ptr a)"
      proof (cases m)
        case (StackError err st)
        have o: "older n err" using ih [of err] StackError a by (auto intro: older_mono)
        then have "Code h' err = Code h err" using ih [of err] StackError by simp
        moreover have "implements_Code h' err = implements_Code h err"
          using agree o by (rule implements_Code_frame)
        ultimately show ?thesis
          using m m' StackError by (simp add: Code_StackError)
      qed (use m m' in \<open>simp_all add: Code_MsgCodeErr Code_CauseMsgCodeError Code_Foreign\<close>)
    qed
  qed (simp_all add: Code_Nil Code_NilPtr)
  then show ?thesis using x by simp
qed

lemma Error_frame:
  assumes wf: "wf_heap h" and n: "n \<le> length h"
    and agree: "\<forall>b<n. lookup h' b = lookup h b" and x: "older n x"
  shows "Error h' x = Error h x"
proof -
  have "older n x \<longrightarrow> Error h' x = Error h x"
  proof (rule heap_induct [OF wf older_mono [OF x n]])
    fix a m
    assume m: "lookup h a = Some m"
      and ih: "\<And>y. y \<in> set (held m) \<Longrightarrow> older a y \<and> (older n y \<longrightarrow> Error h' y = Error h y)"
    show "older n (Ptr a) \<longrightarrow> Error h' (Ptr a) = Error h (Ptr a)"
    proof
      assume "older n (Ptr a)"
      then have a: "a < n" by (simp add: older_def)
      then have m': "lookup h' a = Some m" using agree m by simp
      have sub: "Error h' y = Error h y" if "y \<in> set (held m)" for y
        using ih [OF that] a by (auto intro: older_mono)
      show "Error h' (Ptr a) = Error h (Ptr a)"
        by (cases m) (use m m' sub in \<open>simp_all add: Error_Ptr\<close>)
    qed
  qed (simp_all add: Error_Nil Error_NilPtr)
  then show ?thesis using x by simp
qed

lemma causer_frame:
  assumes l: "lookup h' a = lookup h a"
  shows "causer h' a = causer h a"
  unfolding causer_def StackError_Cause_def CauseMsgCodeError_Cause_def l ..

lemma Cause_frame:
  assumes wf: "wf_heap h" and n: "n \<le> length h"
    and agree: "\<forall>b<n. lookup h' b = lookup h b" and x: "older n x"
  shows "Cause h' x = Cause h x"
proof -
  have "older n x \<longrightarrow> Cause h' x = Cause h x"
  proof (rule heap_induct [OF wf older_mono [OF x n]])
    fix a m
    assume m: "lookup h a = Some m"
      and ih: "\<And>y. y \<in> set (held m) \<Longrightarrow> older a y \<and> (older n y \<longrightarrow> Cause h' y = Cause h y)"
    show "older n (Ptr a) \<longrightarrow> Cause h' (Ptr a) = Cause h (Ptr a)"
    proof
      assume "older n (Ptr a)"
      then have a: "a < n" by (simp add: older_def)
      then have l: "lookup h' a = lookup h a" using agree by simp
      have ca: "causer h' a = causer h a" using l by (rule causer_frame)
      have sub: "Cause h' c = Cause h c" if "causer h a = Some c" for c
        using ih [OF causer_held [OF m that]] a by (auto intro: older_mono)
      show "Cause h' (Ptr a) = Cause h (Ptr a)"
        using l m ca sub by (auto simp: Cause_Ptr split: option.splits)
    qed
  qed (simp_all add: Cause_Nil Cause_NilPtr)
  then show ?thesis using x by simp
qed

lemma Fprintf_plus_v_frame:
  assumes wf: "wf_heap h" and n: "n \<le> length h"
    and agree: "\<forall>b<n. lookup h' b = lookup h b" and x: "older n x"
  shows "Fprintf_plus_v fd h' x = Fprintf_plus_v fd h x"
proof -
  have "older n x \<longrightarrow> Fprintf_plus_v fd h' x = Fprintf_plus_v fd h x"
  proof (rule heap_induct [OF wf older_mono [OF x n]])
    fix a m
    assume m: "lookup h a = Some m"
      and ih: "\<And>y. y \<in> set (held m) \<Longrightarrow>
                 older a y \<and> (older n y \<longrightarrow> Fprintf_plus_v fd h' y = Fprintf_plus_v fd h y)"
    show "older n (Ptr a) \<longrightarrow> Fprintf_plus_v fd h' (Ptr a) = Fprintf_plus_v fd h (Ptr a)"
    proof
      assume "older n (Ptr a)"
      then have a: "a < n" by (simp add: older_def)
      then have m': "lookup h' a = Some m" using agree m by simp
      have sub: "Fprintf_plus_v fd h' y = Fprintf_plus_v fd h y" if "y \<in> set (held m)" for y
        using ih [OF that] a by (auto intro: older_mono)
      show "Fprintf_plus_v fd h' (Ptr a) = Fprintf_plus_v fd h (Ptr a)"
        by (cases m) (use m m' sub in \<open>simp_all add: Fprintf_plus_v_Ptr\<close>)
    qed
  qed (simp_all add: Fprintf_plus_v_Nil Fprintf_plus_v_NilPtr)
  then show ?thesis using x by simp
qed

lemma Code_append:
  "wf_heap h \<Longrightarrow> older (length h) x \<Longrightarrow> Code (h @ xs) x = Code h x"
  by (rule Code_frame [where n = "length h"]) (simp_all add: lookup_append_old)

lemma Error_append:
  "wf_heap h \<Longrightarrow> older (length h) x \<Longrightarrow> Error (h @ xs) x = Error h x"
  by (rule Error_frame [where n = "length h"]) (simp_all add: lookup_append_old)

lemma Cause_append:
  "wf_heap h \<Longrightarrow> older (length h) x \<Longrightarrow> Cause (h @ xs) x = Cause h x"
  by (rule Cause_frame [where n = "length h"]) (simp_all add: lookup_append_old)

lemma Fprintf_plus_v_append:
  "wf_heap h \<Longrightarrow> older (length h) x \<Longrightarrow> Fprintf_plus_v fd (h @ xs) x = Fprintf_plus_v fd h x"
  by (rule Fprintf_plus_v_frame [where n = "length h"]) (simp_all add: lookup_append_old)

lemma implements_Code_append:
  "older (length h) x \<Longrightarrow> implements_Code (h @ xs) x = implements_Code h x"
  by (rule implements_Code_frame [where n = "length h"]) (simp_all add: lookup_append_old)

subsection \<open>Every call on a heap without cycles ends\<close>

lemma Code_total:
  assumes wf: "wf_heap h" and x: "older (length h) x"
  shows "implements_Code h x \<Longrightarrow> \<exists>r. Code h x = Some r"
proof -
  have "implements_Code h x \<longrightarrow> (\<exists>r. Code h x = Some r)"
  proof (rule heap_induct [OF wf x])
    fix a m
    assume m: "lookup h a = Some m"
      and ih: "\<And>y. y \<in> set (held m) \<Longrightarrow>
                 older a y \<and> (implements_Code h y \<longrightarrow> (\<exists>r. Code h y = Some r))"
    show "implements_Code h (Ptr a) \<longrightarrow> (\<exists>r. Code h (Ptr a) = Some r)"
    proof (cases m)
      case (StackError err st)
      then show ?thesis using m ih [of err] by (auto simp: Code_StackError)
    next
      case (Foreign msg c cs f)
      then show ?thesis using m by (auto simp: Code_Foreign implements_Code_def)
    qed (use m in \<open>simp_all add: Code_MsgCodeErr Code_CauseMsgCodeError\<close>)
  qed (simp_all add: Code_Nil Code_NilPtr)
  then show "implements_Code h x \<Longrightarrow> \<exists>r. Code h x = Some r" by simp
qed

lemma Code_live:
  assumes wf: "wf_heap h" and live: "no_nil_pointers h" and x: "older (length h) x"
  shows "\<not> is_NilPtr x \<Longrightarrow> implements_Code h x \<Longrightarrow> \<exists>c. Code h x = Some (Inr c)"
proof -
  have "\<not> is_NilPtr x \<longrightarrow> implements_Code h x \<longrightarrow> (\<exists>c. Code h x = Some (Inr c))"
  proof (rule heap_induct [OF wf x])
    fix a m
    assume m: "lookup h a = Some m"
      and ih: "\<And>y. y \<in> set (held m) \<Longrightarrow> older a y \<and>
                 (\<not> is_NilPtr y \<longrightarrow> implements_Code h y \<longrightarrow> (\<exists>c. Code h y = Some (Inr c)))"
    show "\<not> is_NilPtr (Ptr a) \<longrightarrow> implements_Code h (Ptr a) \<longrightarrow> (\<exists>c. Code h (Ptr a) = Some (Inr c))"
    proof (cases m)
      case (StackError err st)
      then have "\<not> is_NilPtr err" using no_nil_pointers_held [OF live m, of err] by simp
      then show ?thesis using m StackError ih [of err] by (auto simp: Code_StackError)
    next
      case (Foreign msg c cs f)
      then show ?thesis using m by (auto simp: Code_Foreign implements_Code_def)
    qed (use m in \<open>simp_all add: Code_MsgCodeErr Code_CauseMsgCodeError\<close>)
  qed (simp_all add: implements_Code_def)
  then show "\<not> is_NilPtr x \<Longrightarrow> implements_Code h x \<Longrightarrow> \<exists>c. Code h x = Some (Inr c)" by simp
qed

lemma Error_total:
  assumes wf: "wf_heap h" and x: "older (length h) x"
  shows "\<exists>r. Error h x = Some r"
proof (rule heap_induct [OF wf x])
  fix a m
  assume m: "lookup h a = Some m"
    and ih: "\<And>y. y \<in> set (held m) \<Longrightarrow> older a y \<and> (\<exists>r. Error h y = Some r)"
  show "\<exists>r. Error h (Ptr a) = Some r"
    by (cases m) (use m ih in \<open>auto simp: Error_Ptr\<close>)
qed (simp_all add: Error_Nil Error_NilPtr)

text \<open>When the \<open>Code()\<close> of an error panics, so does its \<open>Error()\<close>: both go down
  the embedded errors of \<open>StackError\<close>s to the same nil pointer.\<close>

lemma Code_panic_Error:
  assumes wf: "wf_heap h" and x: "older (length h) x"
  shows "implements_Code h x \<Longrightarrow> Code h x = Some (Inl p) \<Longrightarrow> Error h x = Some (Inl p)"
proof -
  have "implements_Code h x \<longrightarrow> Code h x = Some (Inl p) \<longrightarrow> Error h x = Some (Inl p)"
  proof (rule heap_induct [OF wf x])
    fix a m
    assume m: "lookup h a = Some m"
      and ih: "\<And>y. y \<in> set (held m) \<Longrightarrow> older a y \<and>
                 (implements_Code h y \<longrightarrow> Code h y = Some (Inl p) \<longrightarrow> Error h y = Some (Inl p))"
    show "implements_Code h (Ptr a) \<longrightarrow> Code h (Ptr a) = Some (Inl p)
            \<longrightarrow> Error h (Ptr a) = Some (Inl p)"
    proof (cases m)
      case (StackError err st)
      then show ?thesis using m ih [of err]
        by (auto simp: Code_StackError Error_Ptr split: if_splits)
    next
      case (Foreign msg c cs f)
      then show ?thesis using m by (auto simp: Code_Foreign split: option.splits)
    qed (use m in \<open>simp_all add: Code_MsgCodeErr Code_CauseMsgCodeError\<close>)
  next
    show "implements_Code h NilIface \<longrightarrow> Code h NilIface = Some (Inl p) \<longrightarrow> Error h NilIface = Some (Inl p)"
      by (cases p) (simp add: Error_Nil)
  next
    fix T
    show "implements_Code h (NilPtr T) \<longrightarrow> Code h (NilPtr T) = Some (Inl p)
            \<longrightarrow> Error h (NilPtr T) = Some (Inl p)"
      by (cases p) (simp add: Error_NilPtr)
  qed
  then show "implements_Code h x \<Longrightarrow> Code h x = Some (Inl p) \<Longrightarrow> Error h x = Some (Inl p)"
    by simp
qed

lemma held_assign_code: "held (assign_code c n) = held n"
  by (cases n) simp_all

text \<open>\<open>SetCode\<close> assigns the code of at most one object, and returns its receiver unless
  it panics.\<close>

lemma SetCode_total:
  assumes wf: "wf_heap h" and x: "older (length h) x"
  shows "implements_SetCode h x \<Longrightarrow>
           SetCode h x c = Some (Inl NilDereference)
         \<or> (\<exists>t. SetCode h x c = Some (Inr (x, h[t := assign_code c (h ! t)])))"
proof -
  let ?P = "\<lambda>x. implements_SetCode h x \<longrightarrow>
           SetCode h x c = Some (Inl NilDereference)
         \<or> (\<exists>t. SetCode h x c = Some (Inr (x, h[t := assign_code c (h ! t)])))"
  have "?P x"
  proof (rule heap_induct [OF wf x])
    fix a m
    assume m: "lookup h a = Some m" and ih: "\<And>y. y \<in> set (held m) \<Longrightarrow> older a y \<and> ?P y"
    have na: "h ! a = m" using m by (simp add: lookup_Some_iff)
    show "?P (Ptr a)"
    proof (cases m)
      case (MsgCodeErr code msg st)
      then have "SetCode h (Ptr a) c = Some (Inr (Ptr a, h[a := assign_code c (h ! a)]))"
        using m na by (simp add: SetCode_MsgCodeErr)
      then show ?thesis by blast
    next
      case (CauseMsgCodeError cause code msg)
      then have "SetCode h (Ptr a) c = Some (Inr (Ptr a, h[a := assign_code c (h ! a)]))"
        using m na by (simp add: SetCode_CauseMsgCodeError)
      then show ?thesis by blast
    next
      case (Foreign msg cd cs f)
      then show ?thesis using m by (simp add: implements_SetCode_def)
    next
      case (StackError err st)
      have "assign_code c (h ! a) = h ! a" using na StackError by simp
      then have same: "h[a := assign_code c (h ! a)] = h" by (simp only: list_update_id)
      show ?thesis
      proof (cases "implements_SetCode h err")
        case False
        then have "SetCode h (Ptr a) c = Some (Inr (Ptr a, h[a := assign_code c (h ! a)]))"
          using m StackError same by (simp add: SetCode_StackError)
        then show ?thesis by blast
      next
        case True
        then consider "SetCode h err c = Some (Inl NilDereference)"
          | t where "SetCode h err c = Some (Inr (err, h[t := assign_code c (h ! t)]))"
          using ih [of err] StackError by auto
        then show ?thesis
        proof cases
          case 1
          then show ?thesis using m StackError True by (simp add: SetCode_StackError)
        next
          case 2
          then have "SetCode h (Ptr a) c = Some (Inr (Ptr a, h[t := assign_code c (h ! t)]))"
            using m StackError True by (simp add: SetCode_StackError)
          then show ?thesis by blast
        qed
      qed
    qed
  qed (simp_all add: SetCode_Nil SetCode_NilPtr)
  then show "implements_SetCode h x \<Longrightarrow>
           SetCode h x c = Some (Inl NilDereference)
         \<or> (\<exists>t. SetCode h x c = Some (Inr (x, h[t := assign_code c (h ! t)])))"
    by simp
qed


lemma Cause_total:
  assumes wf: "wf_heap h" and x: "older (length h) x"
  shows "\<exists>r. Cause h x = Some r \<and> (\<forall>y. r = Inr y \<longrightarrow> root h y)"
proof (rule heap_induct [OF wf x])
  fix a m
  assume m: "lookup h a = Some m"
    and ih: "\<And>y. y \<in> set (held m) \<Longrightarrow> older a y \<and>
               (\<exists>r. Cause h y = Some r \<and> (\<forall>z. r = Inr z \<longrightarrow> root h z))"
  have a: "a < length h" using m by (simp add: lookup_Some_iff)
  show "\<exists>r. Cause h (Ptr a) = Some r \<and> (\<forall>y. r = Inr y \<longrightarrow> root h y)"
  proof (cases "causer h a")
    case None
    then show ?thesis using m a by (simp add: Cause_Ptr root_def)
  next
    case (Some c)
    then have "Cause h (Ptr a) = Cause h c" using m by (simp add: Cause_Ptr)
    then show ?thesis using ih [OF causer_held [OF m Some]] by simp
  qed
qed (simp_all add: Cause_Nil Cause_NilPtr root_def)

subsection \<open>The extended form of a chain\<close>

lemma join_lines_snoc: "ls \<noteq> [] \<Longrightarrow> join_lines (ls @ [l]) = join_lines ls @ newline @ l"
  by (induction ls rule: join_lines.induct) simp_all

lemma join_lines_frames:
  "ls \<noteq> [] \<Longrightarrow> join_lines (ls @ map fd st) = join_lines ls @ stack_Format fd st"
proof (induction st rule: rev_induct)
  case Nil
  then show ?case by (simp add: stack_Format_def)
next
  case (snoc f st)
  have "join_lines (ls @ map fd (st @ [f])) = join_lines ((ls @ map fd st) @ [fd f])" by simp
  also have "\<dots> = join_lines (ls @ map fd st) @ newline @ fd f"
    using snoc.prems by (intro join_lines_snoc) simp
  finally show ?case using snoc by (simp add: stack_Format_def)
qed

lemma Fprintf_plus_v_Formatter:
  "lookup h a = Some (Foreign m c cs (Some shown)) \<Longrightarrow> Fprintf_plus_v fd h (Ptr a) = Some shown"
  by (simp add: Fprintf_plus_v_Ptr)

lemma layers_rendered:
  assumes wf: "wf_heap h" and x: "older (length h) x"
  shows "\<exists>ls. layers h x = Some ls \<and> chain_lines fd ls \<noteq> [] \<and>
          Fprintf_plus_v fd h x = Some (join_lines (chain_lines fd ls))"
proof (rule heap_induct [OF wf x])
  fix a m
  assume m: "lookup h a = Some m"
    and ih: "\<And>y. y \<in> set (held m) \<Longrightarrow> older a y \<and>
               (\<exists>ls. layers h y = Some ls \<and> chain_lines fd ls \<noteq> [] \<and>
                  Fprintf_plus_v fd h y = Some (join_lines (chain_lines fd ls)))"
  show "\<exists>ls. layers h (Ptr a) = Some ls \<and> chain_lines fd ls \<noteq> [] \<and>
          Fprintf_plus_v fd h (Ptr a) = Some (join_lines (chain_lines fd ls))"
  proof (cases m)
    case (MsgCodeErr code msg st)
    have "join_lines ([msg] @ map fd st) = join_lines [msg] @ stack_Format fd st"
      by (rule join_lines_frames) simp
    then show ?thesis using m MsgCodeErr
      by (simp add: layers_Ptr Fprintf_plus_v_Ptr chain_lines_def)
  next
    case (StackError e st)
    then obtain ls where ls: "layers h e = Some ls" "chain_lines fd ls \<noteq> []"
      "Fprintf_plus_v fd h e = Some (join_lines (chain_lines fd ls))"
      using ih [of e] by auto
    have "join_lines (chain_lines fd ls @ map fd st)
            = join_lines (chain_lines fd ls) @ stack_Format fd st"
      using ls(2) by (rule join_lines_frames)
    then show ?thesis using m StackError ls
      by (simp add: layers_Ptr Fprintf_plus_v_Ptr chain_lines_def)
  next
    case (CauseMsgCodeError cause code msg)
    then obtain ls where ls: "layers h cause = Some ls" "chain_lines fd ls \<noteq> []"
      "Fprintf_plus_v fd h cause = Some (join_lines (chain_lines fd ls))"
      using ih [of cause] by auto
    have "join_lines (chain_lines fd ls @ [msg])
            = join_lines (chain_lines fd ls) @ newline @ msg"
      using ls(2) by (rule join_lines_snoc)
    then show ?thesis using m CauseMsgCodeError ls
      by (simp add: layers_Ptr Fprintf_plus_v_Ptr chain_lines_def)
  next
    case (Foreign msg c cs f)
    then show ?thesis using m
      by (simp add: layers_Ptr Fprintf_plus_v_Ptr chain_lines_def split: option.splits)
  qed
qed (simp_all add: layers_Nil layers_NilPtr Fprintf_plus_v_Nil Fprintf_plus_v_NilPtr chain_lines_def)

section \<open>The constructors\<close>

lemma errCode_of_total:
  "wf_heap h \<Longrightarrow> older (length h) x \<Longrightarrow> \<exists>r. errCode_of k h x = Some r"
  using Code_total [of h x] by (simp add: errCode_of_def)

lemma errCode_of_live:
  "wf_heap h \<Longrightarrow> no_nil_pointers h \<Longrightarrow> older (length h) x \<Longrightarrow> \<not> is_NilPtr x
     \<Longrightarrow> \<exists>c. errCode_of k h x = Some (Inr c)"
  using Code_live [of h x] by (simp add: errCode_of_def)

lemma errCode_of_NilPtr: "errCode_of k h (NilPtr T) = Some (Inl NilDereference)"
  by (simp add: errCode_of_def implements_Code_def Code_NilPtr)

lemma Wrap_eq:
  "err \<noteq> NilIface \<Longrightarrow> errCode_of k h err = Some (Inr c) \<Longrightarrow>
     Wrap k h st err m =
       Some (Inr (Some (Suc (length h)),
                  h @ [CauseMsgCodeError err c m, StackError (Ptr (length h)) st]))"
  by (cases err) (simp_all add: Wrap_def alloc_def)

lemma Wrapf_eq:
  "err \<noteq> NilIface \<Longrightarrow> errCode_of k h err = Some (Inr c) \<Longrightarrow>
     Wrapf k sp h st err f args =
       Some (Inr (Some (Suc (length h)),
                  h @ [CauseMsgCodeError err c (sp f args), StackError (Ptr (length h)) st]))"
  by (cases err) (simp_all add: Wrapf_def alloc_def)

lemma WithMessage_eq:
  "err \<noteq> NilIface \<Longrightarrow> errCode_of k h err = Some (Inr c) \<Longrightarrow>
     WithMessage k h err m = Some (Inr (Some (length h), h @ [CauseMsgCodeError err c m]))"
  by (cases err) (simp_all add: WithMessage_def alloc_def)

lemma WithMessagef_eq:
  "err \<noteq> NilIface \<Longrightarrow> errCode_of k h err = Some (Inr c) \<Longrightarrow>
     WithMessagef k sp h err f args =
       Some (Inr (Some (length h), h @ [CauseMsgCodeError err c (sp f args)]))"
  by (cases err) (simp_all add: WithMessagef_def alloc_def)

lemma Wrap_panic:
  "err \<noteq> NilIface \<Longrightarrow> errCode_of k h err = Some (Inl p) \<Longrightarrow> Wrap k h st err m = Some (Inl p)"
  by (cases err) (simp_all add: Wrap_def)

lemma Wrapf_panic:
  "err \<noteq> NilIface \<Longrightarrow> errCode_of k h err = Some (Inl p)
     \<Longrightarrow> Wrapf k sp h st err f args = Some (Inl p)"
  by (cases err) (simp_all add: Wrapf_def)

lemma WithMessage_panic:
  "err \<noteq> NilIface \<Longrightarrow> errCode_of k h err = Some (Inl p) \<Longrightarrow> WithMessage k h err m = Some (Inl p)"
  by (cases err) (simp_all add: WithMessage_def)

lemma WithMessagef_panic:
  "err \<noteq> NilIface \<Longrightarrow> errCode_of k h err = Some (Inl p)
     \<Longrightarrow> WithMessagef k sp h err f args = Some (Inl p)"
  by (cases err) (simp_all add: WithMessagef_def)

lemma WithStack_eq:
  "err \<noteq> NilIface \<Longrightarrow> WithStack h st err = (Some (length h), h @ [StackError err st])"
  by (cases err) (simp_all add: WithStack_def alloc_def)

text \<open>The constructors and \<open>SetCode\<close> keep the heap free of cycles.\<close>

lemma wf_heap_Nil: "wf_heap []"
  by (simp add: wf_heap_def)

lemma wf_heap_New: "wf_heap h \<Longrightarrow> wf_heap (snd (New k h st m))"
  by (simp add: New_def alloc_def wf_heap_alloc)

lemma wf_heap_Errorf: "wf_heap h \<Longrightarrow> wf_heap (snd (Errorf sp h st f args))"
  by (simp add: Errorf_def alloc_def wf_heap_alloc)

lemma wf_heap_WithStack:
  "wf_heap h \<Longrightarrow> older (length h) err \<Longrightarrow> wf_heap (snd (WithStack h st err))"
  by (cases "err = NilIface") (simp_all add: WithStack_eq wf_heap_alloc, simp add: WithStack_def)

lemma wf_heap_wrapped:
  assumes "wf_heap h" and "older (length h) err"
  shows "wf_heap (h @ [CauseMsgCodeError err c m, StackError (Ptr (length h)) st])"
proof -
  have "wf_heap (h @ [CauseMsgCodeError err c m])"
    using assms by (simp add: wf_heap_alloc)
  then have "wf_heap ((h @ [CauseMsgCodeError err c m]) @ [StackError (Ptr (length h)) st])"
    by (rule wf_heap_alloc) (simp add: older_def)
  then show ?thesis by simp
qed

lemma wf_heap_WithMessage:
  assumes "wf_heap h" and "older (length h) err" and "WithMessage k h err m = Some (Inr (r, h'))"
  shows "wf_heap h'"
proof (cases "err = NilIface")
  case True
  then show ?thesis using assms by (simp add: WithMessage_def)
next
  case False
  obtain v where v: "errCode_of k h err = Some v"
    using errCode_of_total [OF assms(1,2)] by blast
  show ?thesis
  proof (cases v)
    case (Inl p)
    then show ?thesis using WithMessage_panic [OF False, of k h p m] v assms(3) by simp
  next
    case (Inr c)
    then show ?thesis
      using WithMessage_eq [OF False, of k h c m] v assms by (auto simp: wf_heap_alloc)
  qed
qed

lemma wf_heap_Wrap:
  assumes "wf_heap h" and "older (length h) err" and "Wrap k h st err m = Some (Inr (r, h'))"
  shows "wf_heap h'"
proof (cases "err = NilIface")
  case True
  then show ?thesis using assms by (simp add: Wrap_def)
next
  case False
  obtain v where v: "errCode_of k h err = Some v"
    using errCode_of_total [OF assms(1,2)] by blast
  show ?thesis
  proof (cases v)
    case (Inl p)
    then show ?thesis using Wrap_panic [OF False, of k h p st m] v assms(3) by simp
  next
    case (Inr c)
    then show ?thesis
      using Wrap_eq [OF False, of k h c st m] v assms by (auto simp: wf_heap_wrapped)
  qed
qed

lemma wf_heap_SetCode:
  assumes "wf_heap h" and "older (length h) x" and "implements_SetCode h x"
    and "SetCode h x c = Some (Inr (r, h'))"
  shows "wf_heap h'"
  using SetCode_total [OF assms(1,2,3), of c] assms(1,4)
  by (auto simp: wf_heap_update held_assign_code)

text \<open>They also keep it free of nil pointers held in an interface, when they are given
  none.\<close>

lemma no_nil_pointers_alloc:
  "no_nil_pointers h \<Longrightarrow> list_all (\<lambda>x. \<not> is_NilPtr x) (held n) \<Longrightarrow> no_nil_pointers (h @ [n])"
  by (simp add: no_nil_pointers_def)

lemma no_nil_pointers_wrapped:
  "no_nil_pointers h \<Longrightarrow> \<not> is_NilPtr err \<Longrightarrow>
     no_nil_pointers (h @ [CauseMsgCodeError err c m, StackError (Ptr a) st])"
  by (simp add: no_nil_pointers_def)

lemma no_nil_pointers_WithStack:
  "no_nil_pointers h \<Longrightarrow> \<not> is_NilPtr err \<Longrightarrow> no_nil_pointers (snd (WithStack h st err))"
  by (cases err) (simp_all add: WithStack_def alloc_def no_nil_pointers_def)

section \<open>The claims\<close>

text \<open>
  C1. Absence propagation, as the code has it. \<open>Wrap\<close>, \<open>Wrapf\<close>, \<open>WithMessage\<close>,
  \<open>WithMessagef\<close> and \<open>WithStack\<close> return nil, and leave the heap as it is, when the
  cause is nil, whatever the message. \<open>WithStack\<close> returns a pointer that is not nil for
  every other cause. The other four first ask the cause for its code: when that call
  returns they return a pointer that is not nil, and when it panics they panic. It
  returns for every error object of a heap on which no interface holds a nil pointer; it
  panics when the cause itself is a nil pointer held in an interface, which is not equal
  to nil. The second theorem below is the witness; the third evaluates \<open>Wrap\<close> on the nil
  \<open>*StackError\<close> that \<open>WithStack(nil)\<close> returns.
\<close>

theorem absence_propagation:
  assumes "wf_heap h" and "older (length h) err" and "err \<noteq> NilIface"
  shows "Wrap k h st NilIface m = Some (Inr (None, h))
       \<and> Wrapf k sp h st NilIface f args = Some (Inr (None, h))
       \<and> WithMessage k h NilIface m = Some (Inr (None, h))
       \<and> WithMessagef k sp h NilIface f args = Some (Inr (None, h))
       \<and> WithStack h st NilIface = (None, h)
       \<and> (\<exists>w h'. WithStack h st err = (Some w, h'))
       \<and> (\<exists>r. errCode_of k h err = Some r)
       \<and> (\<forall>c. errCode_of k h err = Some (Inr c) \<longrightarrow>
              (\<exists>w h'. Wrap k h st err m = Some (Inr (Some w, h')))
            \<and> (\<exists>w h'. Wrapf k sp h st err f args = Some (Inr (Some w, h')))
            \<and> (\<exists>w h'. WithMessage k h err m = Some (Inr (Some w, h')))
            \<and> (\<exists>w h'. WithMessagef k sp h err f args = Some (Inr (Some w, h'))))
       \<and> (\<forall>p. errCode_of k h err = Some (Inl p) \<longrightarrow>
              Wrap k h st err m = Some (Inl p)
            \<and> Wrapf k sp h st err f args = Some (Inl p)
            \<and> WithMessage k h err m = Some (Inl p)
            \<and> WithMessagef k sp h err f args = Some (Inl p))
       \<and> (no_nil_pointers h \<and> \<not> is_NilPtr err \<longrightarrow> (\<exists>c. errCode_of k h err = Some (Inr c)))
       \<and> (is_NilPtr err \<longrightarrow> errCode_of k h err = Some (Inl NilDereference))"
proof -
  note ne = assms(3)
  have nil: "Wrap k h st NilIface m = Some (Inr (None, h))"
    "Wrapf k sp h st NilIface f args = Some (Inr (None, h))"
    "WithMessage k h NilIface m = Some (Inr (None, h))"
    "WithMessagef k sp h NilIface f args = Some (Inr (None, h))"
    "WithStack h st NilIface = (None, h)"
    by (simp_all add: Wrap_def Wrapf_def WithMessage_def WithMessagef_def WithStack_def)
  have ws: "\<exists>w h'. WithStack h st err = (Some w, h')"
    by (simp add: WithStack_eq [OF ne])
  have tot: "\<exists>r. errCode_of k h err = Some r"
    using assms(1,2) by (rule errCode_of_total)
  have ret: "\<forall>c. errCode_of k h err = Some (Inr c) \<longrightarrow>
              (\<exists>w h'. Wrap k h st err m = Some (Inr (Some w, h')))
            \<and> (\<exists>w h'. Wrapf k sp h st err f args = Some (Inr (Some w, h')))
            \<and> (\<exists>w h'. WithMessage k h err m = Some (Inr (Some w, h')))
            \<and> (\<exists>w h'. WithMessagef k sp h err f args = Some (Inr (Some w, h')))"
    by (simp add: Wrap_eq [OF ne] Wrapf_eq [OF ne] WithMessage_eq [OF ne] WithMessagef_eq [OF ne])
  have pan: "\<forall>p. errCode_of k h err = Some (Inl p) \<longrightarrow>
              Wrap k h st err m = Some (Inl p)
            \<and> Wrapf k sp h st err f args = Some (Inl p)
            \<and> WithMessage k h err m = Some (Inl p)
            \<and> WithMessagef k sp h err f args = Some (Inl p)"
    by (simp add: Wrap_panic [OF ne] Wrapf_panic [OF ne] WithMessage_panic [OF ne]
        WithMessagef_panic [OF ne])
  have live: "no_nil_pointers h \<and> \<not> is_NilPtr err \<longrightarrow> (\<exists>c. errCode_of k h err = Some (Inr c))"
    using errCode_of_live [OF assms(1) _ assms(2)] by blast
  have np: "is_NilPtr err \<longrightarrow> errCode_of k h err = Some (Inl NilDereference)"
    by (cases err) (simp_all add: errCode_of_NilPtr)
  show ?thesis using nil ws tot ret pan live np by blast
qed

theorem absence_propagation_witness:
  "wf_heap [MsgCodeErr 0 ''boom'' [1]] \<and> older (length [MsgCodeErr 0 ''boom'' [1]]) (Ptr 0)
   \<and> Ptr 0 \<noteq> NilIface \<and> no_nil_pointers [MsgCodeErr 0 ''boom'' [1]] \<and> \<not> is_NilPtr (Ptr 0)
   \<and> Wrap 0 [MsgCodeErr 0 ''boom'' [1]] [2] NilIface ''m'' = Some (Inr (None, [MsgCodeErr 0 ''boom'' [1]]))
   \<and> WithStack [MsgCodeErr 0 ''boom'' [1]] [2] NilIface = (None, [MsgCodeErr 0 ''boom'' [1]])
   \<and> (\<exists>w h'. WithStack [MsgCodeErr 0 ''boom'' [1]] [2] (Ptr 0) = (Some w, h'))
   \<and> (\<exists>w h'. Wrap 0 [MsgCodeErr 0 ''boom'' [1]] [2] (Ptr 0) ''m'' = Some (Inr (Some w, h')))
   \<and> (\<exists>w h'. WithMessage 0 [MsgCodeErr 0 ''boom'' [1]] (Ptr 0) ''m'' = Some (Inr (Some w, h')))
   \<and> older (length [MsgCodeErr 0 ''boom'' [1]]) (NilPtr StackErrorT)
   \<and> NilPtr StackErrorT \<noteq> NilIface \<and> is_NilPtr (NilPtr StackErrorT)
   \<and> Wrap 0 [MsgCodeErr 0 ''boom'' [1]] [2] (NilPtr StackErrorT) ''m'' = Some (Inl NilDereference)
   \<and> (\<exists>w h'. WithStack [MsgCodeErr 0 ''boom'' [1]] [2] (NilPtr StackErrorT) = (Some w, h'))"
proof -
  let ?H = "[MsgCodeErr 0 ''boom'' [1]]"
  have wf: "wf_heap ?H" by code_simp
  have o: "older (length ?H) (Ptr 0)" by code_simp
  have ne: "Ptr 0 \<noteq> NilIface" by simp
  have live: "no_nil_pointers ?H" by code_simp
  have o': "older (length ?H) (NilPtr StackErrorT)" by code_simp
  have ne': "NilPtr StackErrorT \<noteq> NilIface" by simp
  note A = absence_propagation [OF wf o ne, of 0 "[2]" "''m''" "\<lambda>f a. f" "''m''" "[]"]
  note B = absence_propagation [OF wf o' ne', of 0 "[2]" "''m''" "\<lambda>f a. f" "''m''" "[]"]
  have np: "\<not> is_NilPtr (Ptr 0)" "is_NilPtr (NilPtr StackErrorT)" by simp_all
  have a: "\<exists>c. errCode_of 0 ?H (Ptr 0) = Some (Inr c)" using A live np by blast
  have b: "errCode_of 0 ?H (NilPtr StackErrorT) = Some (Inl NilDereference)" using B np by blast
  have w1: "\<exists>w h'. Wrap 0 ?H [2] (Ptr 0) ''m'' = Some (Inr (Some w, h'))"
    and w2: "\<exists>w h'. WithMessage 0 ?H (Ptr 0) ''m'' = Some (Inr (Some w, h'))"
    using A a by blast+
  have w3: "Wrap 0 ?H [2] (NilPtr StackErrorT) ''m'' = Some (Inl NilDereference)"
    using B b by blast
  have n1: "Wrap 0 ?H [2] NilIface ''m'' = Some (Inr (None, ?H))"
    and n2: "WithStack ?H [2] NilIface = (None, ?H)"
    and s1: "\<exists>w h'. WithStack ?H [2] (Ptr 0) = (Some w, h')"
    using A by blast+
  have s2: "\<exists>w h'. WithStack ?H [2] (NilPtr StackErrorT) = (Some w, h')"
    using B by blast
  show ?thesis using wf o live o' w1 w2 w3 n1 n2 s1 s2 by simp
qed

theorem absence_propagation_counterexample:
  "WithStack [] [1] NilIface = (None, [])
   \<and> as_error StackErrorT (fst (WithStack [] [1] NilIface)) = NilPtr StackErrorT
   \<and> NilPtr StackErrorT \<noteq> NilIface
   \<and> Wrap 0 [] [2] (NilPtr StackErrorT) ''m'' = Some (Inl NilDereference)
   \<and> WithMessage 0 [] (NilPtr StackErrorT) ''m'' = Some (Inl NilDereference)"
  by (simp add: WithStack_def Wrap_panic WithMessage_panic errCode_of_NilPtr)

text \<open>
  C2. The message chain: for an error object \<open>e\<close> and every message \<open>m\<close>,
  \<open>Wrap(e, m).Error()\<close> is \<open>m + ": " + e.Error()\<close>, and it panics exactly when
  \<open>e.Error()\<close> does. On a heap where no interface holds a nil pointer \<open>Wrap(e, m)\<close>
  returns; where \<open>Wrap(e, m)\<close> itself panics, in the code probe, \<open>e.Error()\<close> panics
  too. On every heap, the \<open>Error()\<close> of a \<open>CauseMsgCodeError\<close> is its own message,
  \<open>": "\<close>, and the \<open>Error()\<close> of its cause; the \<open>Error()\<close> of a \<open>StackError\<close> is the
  \<open>Error()\<close> of the error it embeds.
\<close>

theorem message_chain:
  assumes "wf_heap h" and "e < length h"
  shows "(no_nil_pointers h \<longrightarrow>
            (\<exists>r w h'. Error h (Ptr e) = Some r
              \<and> Wrap k h st (Ptr e) m = Some (Inr (Some w, h'))
              \<and> Error h' (Ptr e) = Some r
              \<and> Error h' (Ptr w) = Some (case r of Inl p \<Rightarrow> Inl p | Inr s \<Rightarrow> Inr (m @ '': '' @ s))))
       \<and> (\<exists>r. Error h (Ptr e) = Some r
            \<and> (\<forall>c. errCode_of k h (Ptr e) = Some (Inr c) \<longrightarrow>
                 (\<exists>w h'. Wrap k h st (Ptr e) m = Some (Inr (Some w, h'))
                   \<and> Error h' (Ptr e) = Some r
                   \<and> Error h' (Ptr w)
                        = Some (case r of Inl p \<Rightarrow> Inl p | Inr s \<Rightarrow> Inr (m @ '': '' @ s))))
            \<and> (\<forall>p. errCode_of k h (Ptr e) = Some (Inl p) \<longrightarrow>
                 Wrap k h st (Ptr e) m = Some (Inl p) \<and> r = Inl p))
       \<and> (\<exists>v. errCode_of k h (Ptr e) = Some v)
       \<and> (\<forall>a cause code msg. lookup g a = Some (CauseMsgCodeError cause code msg) \<longrightarrow>
            Error g (Ptr a) =
              (case Error g cause of None \<Rightarrow> None
               | Some (Inl p) \<Rightarrow> Some (Inl p)
               | Some (Inr s) \<Rightarrow> Some (Inr (msg @ '': '' @ s))))
       \<and> (\<forall>a err st'. lookup g a = Some (StackError err st') \<longrightarrow> Error g (Ptr a) = Error g err)"
proof -
  have o: "older (length h) (Ptr e)" using assms(2) by (simp add: older_def)
  have ne: "Ptr e \<noteq> NilIface" by simp
  obtain r where r: "Error h (Ptr e) = Some r"
    using Error_total [OF assms(1) o] by blast
  have ret: "\<exists>w h'. Wrap k h st (Ptr e) m = Some (Inr (Some w, h'))
                   \<and> Error h' (Ptr e) = Some r
                   \<and> Error h' (Ptr w)
                        = Some (case r of Inl p \<Rightarrow> Inl p | Inr s \<Rightarrow> Inr (m @ '': '' @ s))"
    if c: "errCode_of k h (Ptr e) = Some (Inr c)" for c
  proof -
    let ?h' = "h @ [CauseMsgCodeError (Ptr e) c m, StackError (Ptr (length h)) st]"
    have e': "Error ?h' (Ptr e) = Some r"
      using Error_append [OF assms(1) o] r by simp
    have inner: "Error ?h' (Ptr (length h))
                   = Some (case r of Inl p \<Rightarrow> Inl p | Inr s \<Rightarrow> Inr (m @ '': '' @ s))"
      by (subst Error_Ptr) (simp add: lookup_wrapped e')
    have outer: "Error ?h' (Ptr (Suc (length h))) = Error ?h' (Ptr (length h))"
      by (subst Error_Ptr) (simp add: lookup_wrapped)
    show ?thesis using Wrap_eq [OF ne c] e' inner outer by auto
  qed
  have pan: "Wrap k h st (Ptr e) m = Some (Inl p) \<and> r = Inl p"
    if p: "errCode_of k h (Ptr e) = Some (Inl p)" for p
  proof -
    have "implements_Code h (Ptr e) \<and> Code h (Ptr e) = Some (Inl p)"
      using p by (auto simp: errCode_of_def split: if_splits)
    then have "Error h (Ptr e) = Some (Inl p)"
      using Code_panic_Error [OF assms(1) o] by blast
    then show ?thesis using Wrap_panic [OF ne p] r by simp
  qed
  have tot: "\<exists>v. errCode_of k h (Ptr e) = Some v"
    using assms(1) o by (rule errCode_of_total)
  have live: "no_nil_pointers h \<longrightarrow>
            (\<exists>r w h'. Error h (Ptr e) = Some r
              \<and> Wrap k h st (Ptr e) m = Some (Inr (Some w, h'))
              \<and> Error h' (Ptr e) = Some r
              \<and> Error h' (Ptr w) = Some (case r of Inl p \<Rightarrow> Inl p | Inr s \<Rightarrow> Inr (m @ '': '' @ s)))"
  proof
    assume "no_nil_pointers h"
    then obtain c where "errCode_of k h (Ptr e) = Some (Inr c)"
      using errCode_of_live [OF assms(1) _ o] by auto
    then show "\<exists>r w h'. Error h (Ptr e) = Some r
              \<and> Wrap k h st (Ptr e) m = Some (Inr (Some w, h'))
              \<and> Error h' (Ptr e) = Some r
              \<and> Error h' (Ptr w) = Some (case r of Inl p \<Rightarrow> Inl p | Inr s \<Rightarrow> Inr (m @ '': '' @ s))"
      using ret r by blast
  qed
  have 2: "\<forall>a cause code msg. lookup g a = Some (CauseMsgCodeError cause code msg) \<longrightarrow>
            Error g (Ptr a) =
              (case Error g cause of None \<Rightarrow> None
               | Some (Inl p) \<Rightarrow> Some (Inl p)
               | Some (Inr s) \<Rightarrow> Some (Inr (msg @ '': '' @ s)))"
    by (auto simp: Error_Ptr [of g] split: option.splits sum.splits)
  have 3: "\<forall>a err st'. lookup g a = Some (StackError err st') \<longrightarrow> Error g (Ptr a) = Error g err"
    by (simp add: Error_Ptr [of g])
  show ?thesis using live r ret pan tot 2 3 by blast
qed

theorem message_chain_witness:
  "wf_heap [MsgCodeErr 0 ''inner'' [1]] \<and> (0::nat) < length [MsgCodeErr 0 ''inner'' [1]]
   \<and> no_nil_pointers [MsgCodeErr 0 ''inner'' [1]]
   \<and> Error [MsgCodeErr 0 ''inner'' [1]] (Ptr 0) = Some (Inr ''inner'')
   \<and> Wrap 0 [MsgCodeErr 0 ''inner'' [1]] [2] (Ptr 0) ''outer''
       = Some (Inr (Some 2, [MsgCodeErr 0 ''inner'' [1], CauseMsgCodeError (Ptr 0) 0 ''outer'',
                             StackError (Ptr 1) [2]]))
   \<and> Error [MsgCodeErr 0 ''inner'' [1], CauseMsgCodeError (Ptr 0) 0 ''outer'',
             StackError (Ptr 1) [2]] (Ptr 2) = Some (Inr ''outer: inner'')
   \<and> lookup [MsgCodeErr 0 ''inner'' [1], CauseMsgCodeError (Ptr 0) 0 ''outer'',
              StackError (Ptr 1) [2]] 1 = Some (CauseMsgCodeError (Ptr 0) 0 ''outer'')
   \<and> Error [MsgCodeErr 0 ''inner'' [1], CauseMsgCodeError (Ptr 0) 0 ''outer'',
             StackError (Ptr 1) [2]] (Ptr 1) = Some (Inr ''outer: inner'')
   \<and> lookup [MsgCodeErr 0 ''inner'' [1], CauseMsgCodeError (Ptr 0) 0 ''outer'',
              StackError (Ptr 1) [2]] 2 = Some (StackError (Ptr 1) [2])
   \<and> wf_heap [StackError (NilPtr StackErrorT) [1]]
   \<and> (0::nat) < length [StackError (NilPtr StackErrorT) [1]]
   \<and> errCode_of 0 [StackError (NilPtr StackErrorT) [1]] (Ptr 0) = Some (Inl NilDereference)
   \<and> Wrap 0 [StackError (NilPtr StackErrorT) [1]] [2] (Ptr 0) ''outer'' = Some (Inl NilDereference)
   \<and> Error [StackError (NilPtr StackErrorT) [1]] (Ptr 0) = Some (Inl NilDereference)"
proof -
  let ?H = "[MsgCodeErr 0 ''inner'' [1]]"
  let ?G = "[MsgCodeErr 0 ''inner'' [1], CauseMsgCodeError (Ptr 0) 0 ''outer'',
             StackError (Ptr 1) [2]]"
  let ?N = "[StackError (NilPtr StackErrorT) [1]]"
  have wf: "wf_heap ?H" by code_simp
  have len: "(0::nat) < length ?H" by simp
  have live: "no_nil_pointers ?H" by code_simp
  have e: "Error ?H (Ptr 0) = Some (Inr ''inner'')" by code_simp
  have w: "Wrap 0 ?H [2] (Ptr 0) ''outer'' = Some (Inr (Some 2, ?G))" by code_simp
  have l1: "lookup ?G 1 = Some (CauseMsgCodeError (Ptr 0) 0 ''outer'')" by code_simp
  have l2: "lookup ?G 2 = Some (StackError (Ptr 1) [2])" by code_simp
  note M = message_chain [OF wf len, of 0 "[2]" "''outer''" ?G]
  from M live obtain r w' h' where
    "Error ?H (Ptr 0) = Some r" "Wrap 0 ?H [2] (Ptr 0) ''outer'' = Some (Inr (Some w', h'))"
    "Error h' (Ptr w') = Some (case r of Inl p \<Rightarrow> Inl p | Inr s \<Rightarrow> Inr (''outer'' @ '': '' @ s))"
    by blast
  then have top: "Error ?G (Ptr 2) = Some (Inr ''outer: inner'')"
    using e w by simp
  have law1: "\<forall>a cause code msg. lookup ?G a = Some (CauseMsgCodeError cause code msg) \<longrightarrow>
            Error ?G (Ptr a) =
              (case Error ?G cause of None \<Rightarrow> None
               | Some (Inl p) \<Rightarrow> Some (Inl p)
               | Some (Inr s) \<Rightarrow> Some (Inr (msg @ '': '' @ s)))"
    using M by blast
  have law2: "\<forall>a err st'. lookup ?G a = Some (StackError err st') \<longrightarrow> Error ?G (Ptr a) = Error ?G err"
    using M by blast
  have "Error ?G (Ptr 1) = Error ?G (Ptr 2)" using law2 l2 by simp
  then have mid: "Error ?G (Ptr 1) = Some (Inr ''outer: inner'')" using top by simp
  have e0: "Error ?G (Ptr 0) = Some (Inr ''inner'')" by code_simp
  have "Error ?G (Ptr 1) = (case Error ?G (Ptr 0) of None \<Rightarrow> None
               | Some (Inl p) \<Rightarrow> Some (Inl p)
               | Some (Inr s) \<Rightarrow> Some (Inr (''outer'' @ '': '' @ s)))"
    using law1 l1 by blast
  then have mid': "Error ?G (Ptr 1) = Some (Inr ''outer: inner'')" using e0 by simp
  have wfN: "wf_heap ?N" by code_simp
  have lenN: "(0::nat) < length ?N" by simp
  have cN: "errCode_of 0 ?N (Ptr 0) = Some (Inl NilDereference)" by code_simp
  note P = message_chain [OF wfN lenN, of 0 "[2]" "''outer''" ?N]
  from P obtain r' where r': "Error ?N (Ptr 0) = Some r'"
    and pan: "\<forall>p. errCode_of 0 ?N (Ptr 0) = Some (Inl p) \<longrightarrow>
                 Wrap 0 ?N [2] (Ptr 0) ''outer'' = Some (Inl p) \<and> r' = Inl p"
    by blast
  have wN: "Wrap 0 ?N [2] (Ptr 0) ''outer'' = Some (Inl NilDereference)"
    and eN: "Error ?N (Ptr 0) = Some (Inl NilDereference)"
    using pan cN r' by auto
  show ?thesis using wf len live e w top mid' l1 l2 wfN lenN cN wN eN by simp
qed

lemma Cause_wrapped:
  assumes "wf_heap h" and "older (length h) err"
  shows "Cause (h @ [CauseMsgCodeError err c m, StackError (Ptr (length h)) st])
           (Ptr (Suc (length h))) = Cause h err"
proof -
  let ?h' = "h @ [CauseMsgCodeError err c m, StackError (Ptr (length h)) st]"
  have "Cause ?h' (Ptr (Suc (length h))) = Cause ?h' (Ptr (length h))"
    by (subst Cause_Ptr) (simp add: lookup_wrapped causer_StackError)
  also have "\<dots> = Cause ?h' err"
    by (subst Cause_Ptr) (simp add: lookup_wrapped causer_CauseMsgCodeError)
  also have "\<dots> = Cause h err"
    using assms by (rule Cause_append)
  finally show ?thesis .
qed

lemma errCode_of_wrapped:
  "errCode_of k (h @ [CauseMsgCodeError err c m, StackError (Ptr (length h)) st])
     (Ptr (Suc (length h))) = Some (Inr c)"
proof -
  let ?h' = "h @ [CauseMsgCodeError err c m, StackError (Ptr (length h)) st]"
  have i: "implements_Code ?h' (Ptr (Suc (length h)))" "implements_Code ?h' (Ptr (length h))"
    by (simp_all add: implements_Code_def lookup_wrapped)
  have "Code ?h' (Ptr (length h)) = Some (Inr c)"
    by (rule Code_CauseMsgCodeError) (rule lookup_wrapped)
  then have "Code ?h' (Ptr (Suc (length h))) = Some (Inr c)"
    using i by (simp add: Code_StackError [OF lookup_wrapped(2)])
  then show ?thesis using i by (simp add: errCode_of_def)
qed

text \<open>
  C3. Root cause, as the code has it. \<open>Cause(nil)\<close> is nil; on a value with no
  \<open>Cause\<close> method \<open>Cause\<close> returns that value (an object, or a nil \<open>*MsgCodeErr\<close> held
  in an interface); on an object with a \<open>Cause\<close> method it goes on with what the method
  returns; on a nil \<open>*StackError\<close> or \<open>*CauseMsgCodeError\<close> held in an interface it
  panics. For an error object \<open>e\<close> of a heap without cycles for which \<open>Wrap\<close> returns
  (its code probe does not panic), the loop ends and
  \<open>Cause(Wrap(Wrap(e, m1), m2))\<close> is \<open>Cause(e)\<close>: the same root, or a panic in both. The
  third theorem below evaluates the claim on a nil \<open>*MsgCodeErr\<close> held in an interface,
  which is not nil and has no \<open>Cause\<close> method, and for which \<open>Wrap\<close> panics.
\<close>

theorem root_cause:
  assumes "wf_heap h" and "e < length h" and "errCode_of k h (Ptr e) = Some (Inr c)"
  shows "(\<exists>w1 h1 w2 h2 r.
            Wrap k h s1 (Ptr e) m1 = Some (Inr (Some w1, h1))
          \<and> Wrap k h1 s2 (Ptr w1) m2 = Some (Inr (Some w2, h2))
          \<and> Cause h (Ptr e) = Some r
          \<and> Cause h2 (Ptr w2) = Some r
          \<and> (\<forall>y. r = Inr y \<longrightarrow> root h y))
       \<and> Cause g NilIface = Some (Inr NilIface)
       \<and> (\<forall>a. a < length g \<and> causer g a = None \<longrightarrow> Cause g (Ptr a) = Some (Inr (Ptr a)))
       \<and> Cause g (NilPtr MsgCodeErrT) = Some (Inr (NilPtr MsgCodeErrT))
       \<and> (\<forall>a x. a < length g \<and> causer g a = Some x \<longrightarrow> Cause g (Ptr a) = Cause g x)
       \<and> Cause g (NilPtr StackErrorT) = Some (Inl NilDereference)
       \<and> Cause g (NilPtr CauseMsgCodeErrorT) = Some (Inl NilDereference)"
proof -
  have o: "older (length h) (Ptr e)" using assms(2) by (simp add: older_def)
  let ?h1 = "h @ [CauseMsgCodeError (Ptr e) c m1, StackError (Ptr (length h)) s1]"
  let ?w1 = "Suc (length h)"
  have wf1: "wf_heap ?h1" using assms(1) o by (rule wf_heap_wrapped)
  have o1: "older (length ?h1) (Ptr ?w1)" by (simp add: older_def)
  have c2: "errCode_of k ?h1 (Ptr ?w1) = Some (Inr c)" by (rule errCode_of_wrapped)
  let ?h2 = "?h1 @ [CauseMsgCodeError (Ptr ?w1) c m2, StackError (Ptr (length ?h1)) s2]"
  obtain r where r: "Cause h (Ptr e) = Some r" and stop: "\<forall>y. r = Inr y \<longrightarrow> root h y"
    using Cause_total [OF assms(1) o] by blast
  have "Cause ?h2 (Ptr (Suc (length ?h1))) = Cause ?h1 (Ptr ?w1)"
    using wf1 o1 by (rule Cause_wrapped)
  also have "\<dots> = Cause h (Ptr e)"
    using assms(1) o by (rule Cause_wrapped)
  finally have rt: "Cause ?h2 (Ptr (Suc (length ?h1))) = Some r" using r by simp
  have w1: "Wrap k h s1 (Ptr e) m1 = Some (Inr (Some ?w1, ?h1))"
    using assms(3) by (simp add: Wrap_eq)
  have w2: "Wrap k ?h1 s2 (Ptr ?w1) m2 = Some (Inr (Some (Suc (length ?h1)), ?h2))"
    using c2 by (simp add: Wrap_eq)
  have 1: "\<exists>w1 h1 w2 h2 r.
            Wrap k h s1 (Ptr e) m1 = Some (Inr (Some w1, h1))
          \<and> Wrap k h1 s2 (Ptr w1) m2 = Some (Inr (Some w2, h2))
          \<and> Cause h (Ptr e) = Some r
          \<and> Cause h2 (Ptr w2) = Some r
          \<and> (\<forall>y. r = Inr y \<longrightarrow> root h y)"
    using w1 w2 r rt stop by blast
  have 2: "\<forall>a. a < length g \<and> causer g a = None \<longrightarrow> Cause g (Ptr a) = Some (Inr (Ptr a))"
    by (simp add: Cause_Ptr lookup_def)
  have 3: "\<forall>a x. a < length g \<and> causer g a = Some x \<longrightarrow> Cause g (Ptr a) = Cause g x"
    by (simp add: Cause_Ptr lookup_def)
  show ?thesis using 1 2 3 by (simp add: Cause_Nil Cause_NilPtr)
qed

theorem root_cause_witness:
  "wf_heap [MsgCodeErr 0 ''boom'' [1]] \<and> (0::nat) < length [MsgCodeErr 0 ''boom'' [1]]
   \<and> errCode_of 0 [MsgCodeErr 0 ''boom'' [1]] (Ptr 0) = Some (Inr 0)
   \<and> Wrap 0 [MsgCodeErr 0 ''boom'' [1]] [2] (Ptr 0) ''a''
       = Some (Inr (Some 2, [MsgCodeErr 0 ''boom'' [1], CauseMsgCodeError (Ptr 0) 0 ''a'',
                             StackError (Ptr 1) [2]]))
   \<and> Wrap 0 [MsgCodeErr 0 ''boom'' [1], CauseMsgCodeError (Ptr 0) 0 ''a'', StackError (Ptr 1) [2]]
        [3] (Ptr 2) ''b''
       = Some (Inr (Some 4, [MsgCodeErr 0 ''boom'' [1], CauseMsgCodeError (Ptr 0) 0 ''a'',
                             StackError (Ptr 1) [2], CauseMsgCodeError (Ptr 2) 0 ''b'',
                             StackError (Ptr 3) [3]]))
   \<and> Cause [MsgCodeErr 0 ''boom'' [1]] (Ptr 0) = Some (Inr (Ptr 0))
   \<and> Cause [MsgCodeErr 0 ''boom'' [1], CauseMsgCodeError (Ptr 0) 0 ''a'',
             StackError (Ptr 1) [2], CauseMsgCodeError (Ptr 2) 0 ''b'',
             StackError (Ptr 3) [3]] (Ptr 4) = Some (Inr (Ptr 0))
   \<and> causer [MsgCodeErr 0 ''boom'' [1]] 0 = None
   \<and> root [MsgCodeErr 0 ''boom'' [1]] (Ptr 0)
   \<and> causer [MsgCodeErr 0 ''boom'' [1], CauseMsgCodeError (Ptr 0) 0 ''a'',
              StackError (Ptr 1) [2]] 2 = Some (Ptr 1)
   \<and> Cause [MsgCodeErr 0 ''boom'' [1], CauseMsgCodeError (Ptr 0) 0 ''a'',
             StackError (Ptr 1) [2]] (Ptr 2)
       = Cause [MsgCodeErr 0 ''boom'' [1], CauseMsgCodeError (Ptr 0) 0 ''a'',
                StackError (Ptr 1) [2]] (Ptr 1)"
proof -
  let ?H = "[MsgCodeErr 0 ''boom'' [1]]"
  let ?H1 = "[MsgCodeErr 0 ''boom'' [1], CauseMsgCodeError (Ptr 0) 0 ''a'', StackError (Ptr 1) [2]]"
  let ?H2 = "[MsgCodeErr 0 ''boom'' [1], CauseMsgCodeError (Ptr 0) 0 ''a'',
              StackError (Ptr 1) [2], CauseMsgCodeError (Ptr 2) 0 ''b'', StackError (Ptr 3) [3]]"
  have wf: "wf_heap ?H" by code_simp
  have len: "(0::nat) < length ?H" by simp
  have c: "errCode_of 0 ?H (Ptr 0) = Some (Inr 0)" by code_simp
  have w1: "Wrap 0 ?H [2] (Ptr 0) ''a'' = Some (Inr (Some 2, ?H1))" by code_simp
  have w2: "Wrap 0 ?H1 [3] (Ptr 2) ''b'' = Some (Inr (Some 4, ?H2))" by code_simp
  have nc: "causer ?H 0 = None" by code_simp
  have c1: "causer ?H1 2 = Some (Ptr 1)" by code_simp
  have len1: "(2::nat) < length ?H1" by simp
  note R = root_cause [OF wf len c, of "[2]" "''a''" "[3]" "''b''" ?H]
  note S = root_cause [OF wf len c, of "[2]" "''a''" "[3]" "''b''" ?H1]
  have step: "Cause ?H1 (Ptr 2) = Cause ?H1 (Ptr 1)" using S c1 len1 by blast
  from R obtain x1 g1 x2 g2 r where
    "Wrap 0 ?H [2] (Ptr 0) ''a'' = Some (Inr (Some x1, g1))"
    "Wrap 0 g1 [3] (Ptr x1) ''b'' = Some (Inr (Some x2, g2))"
    "Cause ?H (Ptr 0) = Some r" "Cause g2 (Ptr x2) = Some r"
    and rt: "\<forall>y. r = Inr y \<longrightarrow> root ?H y"
    by blast
  moreover have "\<forall>a. a < length ?H \<and> causer ?H a = None \<longrightarrow> Cause ?H (Ptr a) = Some (Inr (Ptr a))"
    using R by blast
  then have self: "Cause ?H (Ptr 0) = Some (Inr (Ptr 0))" using len nc by blast
  ultimately have top: "Cause ?H2 (Ptr 4) = Some (Inr (Ptr 0))"
    and r0: "r = Inr (Ptr 0)" using w1 w2 by simp_all
  have "root ?H (Ptr 0)" using rt r0 by blast
  then show ?thesis using wf len c w1 w2 nc self top c1 step by simp
qed

theorem root_cause_counterexample:
  "NilPtr MsgCodeErrT \<noteq> NilIface
   \<and> Cause [] (NilPtr MsgCodeErrT) = Some (Inr (NilPtr MsgCodeErrT))
   \<and> Wrap 0 [] [1] (NilPtr MsgCodeErrT) ''a'' = Some (Inl NilDereference)
   \<and> as_error StackErrorT (fst (WithStack [] [1] NilIface)) = NilPtr StackErrorT
   \<and> Cause [] (NilPtr StackErrorT) = Some (Inl NilDereference)"
  by (simp add: Cause_NilPtr Wrap_panic errCode_of_NilPtr WithStack_def)

lemma implements_Code_length: "implements_Code h (Ptr e) \<Longrightarrow> e < length h"
  by (auto simp: implements_Code_def lookup_def split: option.splits if_splits)

text \<open>
  C4. Code inheritance: when \<open>e\<close> has a \<open>Code\<close> method and \<open>e.Code()\<close> is \<open>K\<close>,
  the code of \<open>Wrap(e, m)\<close> is \<open>K\<close>; after \<open>SetCode(J)\<close> on the wrapper, the
  wrapper's code is \<open>J\<close>, the code of \<open>e\<close> is still \<open>K\<close> and the object \<open>e\<close> is
  as it was.
\<close>

theorem code_inheritance:
  assumes "wf_heap h" and "implements_Code h (Ptr e)" and "Code h (Ptr e) = Some (Inr K)"
  shows "\<exists>w h1 h2.
            Wrap k h st (Ptr e) m = Some (Inr (Some w, h1))
          \<and> Code h1 (Ptr w) = Some (Inr K)
          \<and> Code h1 (Ptr e) = Some (Inr K)
          \<and> SetCode h1 (Ptr w) J = Some (Inr (Ptr w, h2))
          \<and> Code h2 (Ptr w) = Some (Inr J)
          \<and> Code h2 (Ptr e) = Some (Inr K)
          \<and> lookup h2 e = lookup h e"
proof -
  have len: "e < length h" using assms(2) by (rule implements_Code_length)
  then have o: "older (length h) (Ptr e)" by (simp add: older_def)
  have c: "errCode_of k h (Ptr e) = Some (Inr K)" using assms by (simp add: errCode_of_def)
  let ?n = "length h"
  let ?h1 = "h @ [CauseMsgCodeError (Ptr e) K m, StackError (Ptr ?n) st]"
  let ?h2 = "h @ [CauseMsgCodeError (Ptr e) J m, StackError (Ptr ?n) st]"
  have upd: "?h1[?n := CauseMsgCodeError (Ptr e) J m] = ?h2" by simp
  have ic1: "implements_Code ?h1 (Ptr ?n)" "implements_SetCode ?h1 (Ptr ?n)"
    and ic2: "implements_Code ?h2 (Ptr ?n)"
    by (simp_all add: implements_Code_def implements_SetCode_def lookup_wrapped)
  have inner1: "Code ?h1 (Ptr ?n) = Some (Inr K)"
    by (rule Code_CauseMsgCodeError) (rule lookup_wrapped)
  have inner2: "Code ?h2 (Ptr ?n) = Some (Inr J)"
    by (rule Code_CauseMsgCodeError) (rule lookup_wrapped)
  have outer1: "Code ?h1 (Ptr (Suc ?n)) = Some (Inr K)"
    using ic1 inner1 by (simp add: Code_StackError [OF lookup_wrapped(2)])
  have outer2: "Code ?h2 (Ptr (Suc ?n)) = Some (Inr J)"
    using ic2 inner2 by (simp add: Code_StackError [OF lookup_wrapped(2)])
  have set_inner: "SetCode ?h1 (Ptr ?n) J = Some (Inr (Ptr ?n, ?h2))"
    using SetCode_CauseMsgCodeError [OF lookup_wrapped(1), of h "Ptr e" K m _ J] upd by simp
  have set_outer: "SetCode ?h1 (Ptr (Suc ?n)) J = Some (Inr (Ptr (Suc ?n), ?h2))"
    using ic1 set_inner by (simp add: SetCode_StackError [OF lookup_wrapped(2)])
  have e1: "Code ?h1 (Ptr e) = Some (Inr K)" using Code_append [OF assms(1) o] assms(3) by simp
  have e2: "Code ?h2 (Ptr e) = Some (Inr K)" using Code_append [OF assms(1) o] assms(3) by simp
  have l: "lookup ?h2 e = lookup h e" using len by (rule lookup_wrapped)
  show ?thesis
    using Wrap_eq [of "Ptr e", OF _ c] outer1 e1 set_outer outer2 e2 l by blast
qed

theorem code_inheritance_witness:
  "wf_heap [MsgCodeErr 7 ''boom'' [1]] \<and> implements_Code [MsgCodeErr 7 ''boom'' [1]] (Ptr 0)
   \<and> Code [MsgCodeErr 7 ''boom'' [1]] (Ptr 0) = Some (Inr 7)
   \<and> (\<exists>w h1 h2.
            Wrap 0 [MsgCodeErr 7 ''boom'' [1]] [2] (Ptr 0) ''m'' = Some (Inr (Some w, h1))
          \<and> Code h1 (Ptr w) = Some (Inr 7)
          \<and> SetCode h1 (Ptr w) 9 = Some (Inr (Ptr w, h2))
          \<and> Code h2 (Ptr w) = Some (Inr 9)
          \<and> Code h2 (Ptr 0) = Some (Inr 7))"
proof -
  let ?H = "[MsgCodeErr 7 ''boom'' [1]]"
  have wf: "wf_heap ?H" by code_simp
  have ic: "implements_Code ?H (Ptr 0)" by code_simp
  have c: "Code ?H (Ptr 0) = Some (Inr 7)" by code_simp
  show ?thesis
    using wf ic c code_inheritance [OF wf ic c, of 0 "[2]" "''m''" 9] by blast
qed

text \<open>
  C5. The code of a new base error is the sentinel: \<open>New\<close> stores \<open>ErrCodeNotDefined\<close>;
  \<open>Errorf\<close> leaves the field at the zero value of \<open>int\<close>, which is the value of
  \<open>ErrCodeNotDefined\<close>. So \<open>New(m).Code()\<close> and \<open>Errorf(format, args...).Code()\<close> are
  both \<open>ErrCodeNotDefined\<close>.
\<close>

theorem sentinel_default:
  "lookup (snd (New ErrCodeNotDefined h callers message))
          (fst (New ErrCodeNotDefined h callers message))
     = Some (MsgCodeErr ErrCodeNotDefined message callers)
   \<and> Code (snd (New ErrCodeNotDefined h callers message))
          (Ptr (fst (New ErrCodeNotDefined h callers message))) = Some (Inr ErrCodeNotDefined)
   \<and> lookup (snd (Errorf Sprintf h callers format args))
            (fst (Errorf Sprintf h callers format args))
     = Some (MsgCodeErr ErrCodeNotDefined (Sprintf format args) callers)
   \<and> Code (snd (Errorf Sprintf h callers format args))
          (Ptr (fst (Errorf Sprintf h callers format args))) = Some (Inr ErrCodeNotDefined)"
  by (simp add: Errorf_def New_def alloc_def lookup_append_new ErrCodeNotDefined_def
      Code_MsgCodeErr [OF lookup_append_new])

text \<open>
  C6. Base accessors: for every message \<open>m\<close> and code \<open>c\<close>, \<open>New(m).Error()\<close> is
  \<open>m\<close>; \<open>SetCode(c)\<close> on the new error returns that same error, having assigned only
  its code; afterwards \<open>Code()\<close> is \<open>c\<close> and the message is still \<open>m\<close>.
  \<open>SetCode\<close> returns in every case.
\<close>

theorem base_accessors:
  "(case New k h st m of (f, h1) \<Rightarrow>
      Error h1 (Ptr f) = Some (Inr m)
    \<and> SetCode h1 (Ptr f) c = Some (Inr (Ptr f, h1[f := MsgCodeErr c m st]))
    \<and> Code (h1[f := MsgCodeErr c m st]) (Ptr f) = Some (Inr c)
    \<and> Error (h1[f := MsgCodeErr c m st]) (Ptr f) = Some (Inr m))"
proof -
  have l1: "lookup (h @ [MsgCodeErr k m st]) (length h) = Some (MsgCodeErr k m st)"
    by (rule lookup_append_new)
  have l2: "lookup (h @ [MsgCodeErr c m st]) (length h) = Some (MsgCodeErr c m st)"
    by (rule lookup_append_new)
  show ?thesis
    by (simp add: New_def alloc_def Error_Ptr SetCode_MsgCodeErr [OF l1] l1 l2
        Code_MsgCodeErr [OF l2])
qed



text \<open>
  C8. The structure that \<open>Wrap\<close> builds, as the code has it: for an error object \<open>e\<close>
  whose code probe returns (it does on every heap where no interface holds a nil pointer),
  \<open>Wrap(e, m)\<close> is \<open>WithStack(WithMessage(e, m))\<close> (with the same captured stack). It
  allocates exactly two objects: a \<open>CauseMsgCodeError\<close> with cause \<open>e\<close>, message \<open>m\<close>
  and the code of \<open>e\<close> (or \<open>ErrCodeNotDefined\<close> when \<open>e\<close> has no \<open>Code\<close> method),
  and above it a \<open>StackError\<close>, which is the result. The result's \<open>Cause()\<close> is the
  message object, whose \<open>Cause()\<close> is \<open>e\<close>. On a cause that is not nil and is a nil
  pointer held in an interface \<open>Wrap\<close> panics and builds nothing: the third theorem
  below evaluates it on the nil \<open>*CauseMsgCodeError\<close> that \<open>WithMessage(nil, "x")\<close>
  returns.
\<close>

theorem Wrap_structure:
  assumes "wf_heap h" and "e < length h" and "errCode_of k h (Ptr e) = Some (Inr code)"
  shows "Wrap k h st (Ptr e) m =
           (case WithMessage k h (Ptr e) m of None \<Rightarrow> None
            | Some (Inl p) \<Rightarrow> Some (Inl p)
            | Some (Inr (c, h1)) \<Rightarrow> Some (Inr (WithStack h1 st (as_error CauseMsgCodeErrorT c))))
       \<and> (implements_Code h (Ptr e) \<longrightarrow> Code h (Ptr e) = Some (Inr code))
       \<and> (\<not> implements_Code h (Ptr e) \<longrightarrow> code = k)
       \<and> WithMessage k h (Ptr e) m
            = Some (Inr (Some (length h), h @ [CauseMsgCodeError (Ptr e) code m]))
       \<and> Wrap k h st (Ptr e) m
            = Some (Inr (Some (Suc (length h)),
                         h @ [CauseMsgCodeError (Ptr e) code m, StackError (Ptr (length h)) st]))
       \<and> StackError_Cause
            (h @ [CauseMsgCodeError (Ptr e) code m, StackError (Ptr (length h)) st])
            (Suc (length h)) = Some (Ptr (length h))
       \<and> CauseMsgCodeError_Cause
            (h @ [CauseMsgCodeError (Ptr e) code m, StackError (Ptr (length h)) st])
            (length h) = Some (Ptr e)"
proof -
  note c = assms(3)
  have ne: "Ptr e \<noteq> NilIface" by simp
  have 1: "Wrap k h st (Ptr e) m =
           (case WithMessage k h (Ptr e) m of None \<Rightarrow> None
            | Some (Inl p) \<Rightarrow> Some (Inl p)
            | Some (Inr (c, h1)) \<Rightarrow> Some (Inr (WithStack h1 st (as_error CauseMsgCodeErrorT c))))"
    by (simp add: Wrap_eq [OF ne c] WithMessage_eq [OF ne c] WithStack_eq)
  have 2: "(implements_Code h (Ptr e) \<longrightarrow> Code h (Ptr e) = Some (Inr code))
         \<and> (\<not> implements_Code h (Ptr e) \<longrightarrow> code = k)"
    using c by (auto simp: errCode_of_def)
  have 3: "StackError_Cause
             (h @ [CauseMsgCodeError (Ptr e) code m, StackError (Ptr (length h)) st])
             (Suc (length h)) = Some (Ptr (length h))"
    by (simp add: StackError_Cause_def lookup_wrapped)
  have 4: "CauseMsgCodeError_Cause
             (h @ [CauseMsgCodeError (Ptr e) code m, StackError (Ptr (length h)) st])
             (length h) = Some (Ptr e)"
    by (simp add: CauseMsgCodeError_Cause_def lookup_wrapped)
  show ?thesis
    using 1 2 3 4 Wrap_eq [OF ne c] WithMessage_eq [OF ne c] by blast
qed

theorem Wrap_structure_witness:
  "wf_heap [MsgCodeErr 7 ''boom'' [1]] \<and> (0::nat) < length [MsgCodeErr 7 ''boom'' [1]]
   \<and> errCode_of 0 [MsgCodeErr 7 ''boom'' [1]] (Ptr 0) = Some (Inr 7)
   \<and> implements_Code [MsgCodeErr 7 ''boom'' [1]] (Ptr 0)
   \<and> Code [MsgCodeErr 7 ''boom'' [1]] (Ptr 0) = Some (Inr 7)
   \<and> Wrap 0 [MsgCodeErr 7 ''boom'' [1]] [2] (Ptr 0) ''read''
       = Some (Inr (Some 2, [MsgCodeErr 7 ''boom'' [1], CauseMsgCodeError (Ptr 0) 7 ''read'',
                             StackError (Ptr 1) [2]]))
   \<and> Wrap 0 [MsgCodeErr 7 ''boom'' [1]] [2] (Ptr 0) ''read''
       = (case WithMessage 0 [MsgCodeErr 7 ''boom'' [1]] (Ptr 0) ''read'' of None \<Rightarrow> None
          | Some (Inl p) \<Rightarrow> Some (Inl p)
          | Some (Inr (c, h1)) \<Rightarrow> Some (Inr (WithStack h1 [2] (as_error CauseMsgCodeErrorT c))))
   \<and> wf_heap [Foreign ''EOF'' None None None]
   \<and> (0::nat) < length [Foreign ''EOF'' None None None]
   \<and> \<not> implements_Code [Foreign ''EOF'' None None None] (Ptr 0)
   \<and> errCode_of 4 [Foreign ''EOF'' None None None] (Ptr 0) = Some (Inr 4)
   \<and> Wrap 4 [Foreign ''EOF'' None None None] [2] (Ptr 0) ''read''
       = Some (Inr (Some 2, [Foreign ''EOF'' None None None, CauseMsgCodeError (Ptr 0) 4 ''read'',
                             StackError (Ptr 1) [2]]))"
proof -
  let ?H = "[MsgCodeErr 7 ''boom'' [1]]"
  have wf: "wf_heap ?H" by code_simp
  have len: "(0::nat) < length ?H" by simp
  have ec: "errCode_of 0 ?H (Ptr 0) = Some (Inr 7)" by code_simp
  have ic: "implements_Code ?H (Ptr 0)" by code_simp
  note W = Wrap_structure [OF wf len ec, of "[2]" "''read''"]
  have c: "Code ?H (Ptr 0) = Some (Inr 7)" using W ic by blast
  have eq: "Wrap 0 ?H [2] (Ptr 0) ''read''
       = (case WithMessage 0 ?H (Ptr 0) ''read'' of None \<Rightarrow> None
          | Some (Inl p) \<Rightarrow> Some (Inl p)
          | Some (Inr (c, h1)) \<Rightarrow> Some (Inr (WithStack h1 [2] (as_error CauseMsgCodeErrorT c))))"
    using W by blast
  have "Wrap 0 ?H [2] (Ptr 0) ''read''
            = Some (Inr (Some (Suc (length ?H)),
                         ?H @ [CauseMsgCodeError (Ptr 0) 7 ''read'', StackError (Ptr (length ?H)) [2]]))"
    using W by blast
  then have w: "Wrap 0 ?H [2] (Ptr 0) ''read''
       = Some (Inr (Some 2, [MsgCodeErr 7 ''boom'' [1], CauseMsgCodeError (Ptr 0) 7 ''read'',
                             StackError (Ptr 1) [2]]))"
    by simp
  let ?F = "[Foreign ''EOF'' None None None]"
  have wfF: "wf_heap ?F" by code_simp
  have lenF: "(0::nat) < length ?F" by simp
  have ecF: "errCode_of 4 ?F (Ptr 0) = Some (Inr 4)" by code_simp
  have icF: "\<not> implements_Code ?F (Ptr 0)" by code_simp
  note V = Wrap_structure [OF wfF lenF ecF, of "[2]" "''read''"]
  have "Wrap 4 ?F [2] (Ptr 0) ''read''
            = Some (Inr (Some (Suc (length ?F)),
                         ?F @ [CauseMsgCodeError (Ptr 0) 4 ''read'', StackError (Ptr (length ?F)) [2]]))"
    using V by blast
  then have wF: "Wrap 4 ?F [2] (Ptr 0) ''read''
       = Some (Inr (Some 2, [Foreign ''EOF'' None None None, CauseMsgCodeError (Ptr 0) 4 ''read'',
                             StackError (Ptr 1) [2]]))"
    by simp
  show ?thesis using wf len ec ic c w eq wfF lenF icF ecF wF by simp
qed

theorem Wrap_structure_counterexample:
  "WithMessage 0 [] NilIface ''x'' = Some (Inr (None, []))
   \<and> as_error CauseMsgCodeErrorT None = NilPtr CauseMsgCodeErrorT
   \<and> NilPtr CauseMsgCodeErrorT \<noteq> NilIface
   \<and> Wrap 0 [] [1] (NilPtr CauseMsgCodeErrorT) ''m'' = Some (Inl NilDereference)"
  by (simp add: WithMessage_def Wrap_panic errCode_of_NilPtr)

section \<open>Occurrences in a text\<close>

lemma find_after_Some:
  "find_after x out = Some rest \<Longrightarrow> \<exists>pre. out = pre @ x @ rest"
proof (induction out)
  case Nil
  then show ?case by (simp split: if_splits)
next
  case (Cons c cs)
  show ?case
  proof (cases "prefix x (c # cs)")
    case True
    then obtain zs where zs: "c # cs = x @ zs" by (auto simp: prefix_def)
    have "rest = drop (length x) (c # cs)" using Cons.prems True by simp
    then have "rest = zs" using zs by simp
    then show ?thesis using zs by (intro exI [of _ "[]"]) simp
  next
    case False
    then have "find_after x cs = Some rest" using Cons.prems by simp
    then obtain pre where "cs = pre @ x @ rest" using Cons.IH by blast
    then show ?thesis by (intro exI [of _ "c # pre"]) simp
  qed
qed

lemma find_after_None:
  "find_after x out = None \<Longrightarrow> \<not> (\<exists>pre post. out = pre @ x @ post)"
proof (induction out)
  case Nil
  then show ?case by (simp split: if_splits)
next
  case (Cons c cs)
  have np: "\<not> prefix x (c # cs)" and rec: "find_after x cs = None"
    using Cons.prems by (simp_all split: if_splits)
  show ?case
  proof
    assume "\<exists>pre post. c # cs = pre @ x @ post"
    then obtain pre post where eq: "c # cs = pre @ x @ post" by blast
    show False
    proof (cases pre)
      case Nil
      then show ?thesis using eq np by (simp add: prefix_def)
    next
      case (Cons p ps)
      then have "cs = ps @ x @ post" using eq by simp
      then show ?thesis using Cons.IH [OF rec] by blast
    qed
  qed
qed


lemma find_after_first:
  "out = pre @ x @ post \<Longrightarrow>
     \<exists>pre' rest. find_after x out = Some rest \<and> out = pre' @ x @ rest \<and> length pre' \<le> length pre"
proof (induction out arbitrary: pre)
  case Nil
  then show ?case by simp
next
  case (Cons c cs)
  show ?case
  proof (cases "prefix x (c # cs)")
    case True
    then obtain zs where zs: "c # cs = x @ zs" by (auto simp: prefix_def)
    have "find_after x (c # cs) = Some (drop (length x) (c # cs))" using True by simp
    then have "find_after x (c # cs) = Some zs" using zs by simp
    then show ?thesis using zs by (intro exI [of _ "[]"] exI [of _ zs]) simp
  next
    case False
    then obtain p ps where pre: "pre = p # ps"
      using Cons.prems by (cases pre) (auto simp: prefix_def)
    then have "cs = ps @ x @ post" using Cons.prems by simp
    then obtain pre' rest where r: "find_after x cs = Some rest" "cs = pre' @ x @ rest"
      "length pre' \<le> length ps"
      using Cons.IH by blast
    then show ?thesis using False pre
      by (intro exI [of _ "c # pre'"] exI [of _ rest]) simp
  qed
qed

lemma appears_before_iff:
  "appears_before x y out \<longleftrightarrow> (\<exists>a b c. out = a @ x @ b @ y @ c)"
proof
  assume "appears_before x y out"
  then obtain rest rest' where r: "find_after x out = Some rest" "find_after y rest = Some rest'"
    by (auto simp: appears_before_def split: option.splits)
  obtain a where a: "out = a @ x @ rest" using find_after_Some [OF r(1)] by blast
  obtain b where b: "rest = b @ y @ rest'" using find_after_Some [OF r(2)] by blast
  show "\<exists>a b c. out = a @ x @ b @ y @ c" using a b by blast
next
  assume "\<exists>a b c. out = a @ x @ b @ y @ c"
  then obtain a b c where eq: "out = a @ x @ (b @ y @ c)" by auto
  obtain a' rest where r: "find_after x out = Some rest" "out = a' @ x @ rest"
    "length a' \<le> length a"
    using find_after_first [OF eq] by blast
  have "drop (length a' + length x) out = rest" using r(2) by simp
  moreover have "drop (length a + length x) out = b @ y @ c" using eq by simp
  moreover have "drop (length a + length x) out
                   = drop (length a - length a') (drop (length a' + length x) out)"
    using r(3) by (simp add: add.commute)
  ultimately have "b @ y @ c = drop (length a - length a') rest" by simp
  then have "rest = take (length a - length a') rest @ b @ y @ c"
    by (metis append_take_drop_id)
  then have "find_after y rest \<noteq> None" using find_after_None [of y rest] by (metis append.assoc)
  then show "appears_before x y out" using r(1) by (simp add: appears_before_def)
qed


text \<open>
  C9. Extended rendering, as the code has it: formatting an error object of a heap that the
  package can meet with \<open>%+v\<close> writes the lines of its chain joined by newlines, from
  the innermost layer outwards. The innermost message comes first; every enclosing object
  follows the text of its cause, a \<open>CauseMsgCodeError\<close> with its message and a stack with
  its frames in capture order, one frame a line. The chain is followed through the
  objects of this package: it ends at a \<open>MsgCodeErr\<close>, at nil, or at the first error of
  another package, for which \<open>fmt\<close> writes what that error's \<open>Format\<close> method
  writes when it implements \<open>fmt.Formatter\<close>, and its \<open>Error()\<close> text otherwise. So
  the messages appear in inner-to-outer order, not outer-to-inner, and what lies beneath an
  error of another package is written only if that error writes it. The third theorem
  below evaluates \<open>WithMessage(New("inner"), "outer")\<close>, where \<open>inner\<close> is written
  before \<open>outer\<close>, and a chain with an error of another package between \<open>outer\<close> and
  \<open>inner\<close>, where neither \<open>inner\<close> nor its stack is written.
\<close>

theorem extended_rendering:
  assumes "wf_heap h" and "a < length h"
  shows "\<exists>ls. layers h (Ptr a) = Some ls
          \<and> Fprintf_plus_v fd h (Ptr a) = Some (join_lines (chain_lines fd ls))
          \<and> (\<forall>code msg st. lookup h a = Some (MsgCodeErr code msg st) \<longrightarrow>
                MsgCodeErr_Format Quote fd h a True (CHR ''v'')
                  = Some (Inr (join_lines (chain_lines fd ls))))
          \<and> (\<forall>err st. lookup h a = Some (StackError err st) \<longrightarrow>
                StackError_Format Quote fd h a True (CHR ''v'')
                  = Some (Inr (join_lines (chain_lines fd ls))))
          \<and> (\<forall>cause code msg. lookup h a = Some (CauseMsgCodeError cause code msg) \<longrightarrow>
                CauseMsgCodeError_Format fd h a True (CHR ''v'')
                  = Some (Inr (join_lines (chain_lines fd ls))))"
proof -
  have o: "older (length h) (Ptr a)" using assms(2) by (simp add: older_def)
  obtain ls where ls: "layers h (Ptr a) = Some ls"
    and out: "Fprintf_plus_v fd h (Ptr a) = Some (join_lines (chain_lines fd ls))"
    using layers_rendered [OF assms(1) o] by blast
  have 1: "\<forall>code msg st. lookup h a = Some (MsgCodeErr code msg st) \<longrightarrow>
                MsgCodeErr_Format Quote fd h a True (CHR ''v'')
                  = Some (Inr (join_lines (chain_lines fd ls)))"
    using out by (auto simp: MsgCodeErr_Format_def Fprintf_plus_v_Ptr)
  have 2: "\<forall>err st. lookup h a = Some (StackError err st) \<longrightarrow>
                StackError_Format Quote fd h a True (CHR ''v'')
                  = Some (Inr (join_lines (chain_lines fd ls)))"
    using out by (auto simp: StackError_Format_def Fprintf_plus_v_Ptr [of fd h a] split: bind_splits)
  have 3: "\<forall>cause code msg. lookup h a = Some (CauseMsgCodeError cause code msg) \<longrightarrow>
                CauseMsgCodeError_Format fd h a True (CHR ''v'')
                  = Some (Inr (join_lines (chain_lines fd ls)))"
    using out
    by (auto simp: CauseMsgCodeError_Format_def Fprintf_plus_v_Ptr [of fd h a] split: bind_splits)
  show ?thesis using ls out 1 2 3 by blast
qed

theorem extended_rendering_witness:
  "wf_heap [MsgCodeErr 0 ''inner'' [1, 2], CauseMsgCodeError (Ptr 0) 0 ''outer'',
            StackError (Ptr 1) [3]]
   \<and> (2::nat) < length [MsgCodeErr 0 ''inner'' [1, 2], CauseMsgCodeError (Ptr 0) 0 ''outer'',
                        StackError (Ptr 1) [3]]
   \<and> lookup [MsgCodeErr 0 ''inner'' [1, 2], CauseMsgCodeError (Ptr 0) 0 ''outer'',
             StackError (Ptr 1) [3]] 2 = Some (StackError (Ptr 1) [3])
   \<and> layers [MsgCodeErr 0 ''inner'' [1, 2], CauseMsgCodeError (Ptr 0) 0 ''outer'',
             StackError (Ptr 1) [3]] (Ptr 2)
       = Some [Stack [3], Message ''outer'', Stack [1, 2], Message ''inner'']
   \<and> StackError_Format id sample_Frame_detail
         [MsgCodeErr 0 ''inner'' [1, 2], CauseMsgCodeError (Ptr 0) 0 ''outer'',
          StackError (Ptr 1) [3]] 2 True (CHR ''v'')
       = Some (Inr (join_lines [''inner'', ''main.f'', ''main.g'', ''outer'', ''main.main'']))
   \<and> lookup [MsgCodeErr 0 ''inner'' [1, 2], CauseMsgCodeError (Ptr 0) 0 ''outer'',
             StackError (Ptr 1) [3]] 1 = Some (CauseMsgCodeError (Ptr 0) 0 ''outer'')
   \<and> CauseMsgCodeError_Format sample_Frame_detail
         [MsgCodeErr 0 ''inner'' [1, 2], CauseMsgCodeError (Ptr 0) 0 ''outer'',
          StackError (Ptr 1) [3]] 1 True (CHR ''v'')
       = Some (Inr (join_lines [''inner'', ''main.f'', ''main.g'', ''outer'']))
   \<and> lookup [MsgCodeErr 0 ''inner'' [1, 2], CauseMsgCodeError (Ptr 0) 0 ''outer'',
             StackError (Ptr 1) [3]] 0 = Some (MsgCodeErr 0 ''inner'' [1, 2])
   \<and> MsgCodeErr_Format id sample_Frame_detail
         [MsgCodeErr 0 ''inner'' [1, 2], CauseMsgCodeError (Ptr 0) 0 ''outer'',
          StackError (Ptr 1) [3]] 0 True (CHR ''v'')
       = Some (Inr (join_lines [''inner'', ''main.f'', ''main.g'']))"
proof -
  let ?H = "[MsgCodeErr 0 ''inner'' [1, 2], CauseMsgCodeError (Ptr 0) 0 ''outer'',
             StackError (Ptr 1) [3]]"
  have wf: "wf_heap ?H" by code_simp
  have len: "(2::nat) < length ?H" by simp
  have l: "lookup ?H 2 = Some (StackError (Ptr 1) [3])" by code_simp
  have ls: "layers ?H (Ptr 2) = Some [Stack [3], Message ''outer'', Stack [1, 2], Message ''inner'']"
    by code_simp
  have cl: "chain_lines sample_Frame_detail
              [Stack [3], Message ''outer'', Stack [1, 2], Message ''inner'']
            = [''inner'', ''main.f'', ''main.g'', ''outer'', ''main.main'']"
    by code_simp
  from extended_rendering [OF wf len, of sample_Frame_detail id]
  obtain ks where "layers ?H (Ptr 2) = Some ks"
    and "\<forall>err st. lookup ?H 2 = Some (StackError err st) \<longrightarrow>
                StackError_Format id sample_Frame_detail ?H 2 True (CHR ''v'')
                  = Some (Inr (join_lines (chain_lines sample_Frame_detail ks)))"
    by blast
  then have top: "StackError_Format id sample_Frame_detail ?H 2 True (CHR ''v'')
       = Some (Inr (join_lines [''inner'', ''main.f'', ''main.g'', ''outer'', ''main.main'']))"
    using l ls cl by simp
  have len1: "(1::nat) < length ?H" and len0: "(0::nat) < length ?H" by simp_all
  have l1: "lookup ?H 1 = Some (CauseMsgCodeError (Ptr 0) 0 ''outer'')" by code_simp
  have l0: "lookup ?H 0 = Some (MsgCodeErr 0 ''inner'' [1, 2])" by code_simp
  have ls1: "layers ?H (Ptr 1) = Some [Message ''outer'', Stack [1, 2], Message ''inner'']"
    by code_simp
  have ls0: "layers ?H (Ptr 0) = Some [Stack [1, 2], Message ''inner'']" by code_simp
  have cl1: "chain_lines sample_Frame_detail [Message ''outer'', Stack [1, 2], Message ''inner'']
            = [''inner'', ''main.f'', ''main.g'', ''outer'']"
    by code_simp
  have cl0: "chain_lines sample_Frame_detail [Stack [1, 2], Message ''inner'']
            = [''inner'', ''main.f'', ''main.g'']"
    by code_simp
  from extended_rendering [OF wf len1, of sample_Frame_detail id]
  obtain ks1 where "layers ?H (Ptr 1) = Some ks1"
    and "\<forall>cause code msg. lookup ?H 1 = Some (CauseMsgCodeError cause code msg) \<longrightarrow>
                CauseMsgCodeError_Format sample_Frame_detail ?H 1 True (CHR ''v'')
                  = Some (Inr (join_lines (chain_lines sample_Frame_detail ks1)))"
    by blast
  then have mid: "CauseMsgCodeError_Format sample_Frame_detail ?H 1 True (CHR ''v'')
       = Some (Inr (join_lines [''inner'', ''main.f'', ''main.g'', ''outer'']))"
    using l1 ls1 cl1 by simp
  from extended_rendering [OF wf len0, of sample_Frame_detail id]
  obtain ks0 where "layers ?H (Ptr 0) = Some ks0"
    and "\<forall>code msg st. lookup ?H 0 = Some (MsgCodeErr code msg st) \<longrightarrow>
                MsgCodeErr_Format id sample_Frame_detail ?H 0 True (CHR ''v'')
                  = Some (Inr (join_lines (chain_lines sample_Frame_detail ks0)))"
    by blast
  then have bot: "MsgCodeErr_Format id sample_Frame_detail ?H 0 True (CHR ''v'')
       = Some (Inr (join_lines [''inner'', ''main.f'', ''main.g'']))"
    using l0 ls0 cl0 by simp
  show ?thesis using wf len l ls top l1 mid l0 bot by simp
qed

theorem extended_rendering_counterexample:
  "New 0 [] [1] ''inner'' = (0, [MsgCodeErr 0 ''inner'' [1]])
   \<and> WithMessage 0 [MsgCodeErr 0 ''inner'' [1]] (Ptr 0) ''outer''
       = Some (Inr (Some 1, [MsgCodeErr 0 ''inner'' [1], CauseMsgCodeError (Ptr 0) 0 ''outer'']))
   \<and> CauseMsgCodeError_Format sample_Frame_detail
         [MsgCodeErr 0 ''inner'' [1], CauseMsgCodeError (Ptr 0) 0 ''outer''] 1 True (CHR ''v'')
       = Some (Inr (''inner'' @ newline @ ''main.f'' @ newline @ ''outer''))
   \<and> \<not> appears_before ''outer'' ''inner'' (''inner'' @ newline @ ''main.f'' @ newline @ ''outer'')
   \<and> appears_before ''inner'' ''outer'' (''inner'' @ newline @ ''main.f'' @ newline @ ''outer'')
   \<and> CauseMsgCodeError_Format sample_Frame_detail
         [MsgCodeErr 0 ''inner'' [1], Foreign ''mid'' None (Some (Ptr 0)) None,
          CauseMsgCodeError (Ptr 1) 0 ''outer''] 2 True (CHR ''v'')
       = Some (Inr (''mid'' @ newline @ ''outer''))
   \<and> Cause [MsgCodeErr 0 ''inner'' [1], Foreign ''mid'' None (Some (Ptr 0)) None,
             CauseMsgCodeError (Ptr 1) 0 ''outer''] (Ptr 2) = Some (Inr (Ptr 0))
   \<and> find_after ''inner'' (''mid'' @ newline @ ''outer'') = None
   \<and> find_after ''main.f'' (''mid'' @ newline @ ''outer'') = None"
  by code_simp

text \<open>
  C10. \<open>Unwrap\<close> agrees with \<open>Cause\<close>: on every receiver \<open>StackError.Unwrap\<close>
  returns what \<open>StackError.Cause\<close> returns, and \<open>CauseMsgCodeError.Unwrap\<close> what
  \<open>CauseMsgCodeError.Cause\<close> returns; on an object of the wrapper type both return the
  error it wraps.
\<close>

theorem unwrap_is_cause:
  "StackError_Unwrap h w = StackError_Cause h w
   \<and> CauseMsgCodeError_Unwrap h w = CauseMsgCodeError_Cause h w
   \<and> (\<forall>err st. lookup h w = Some (StackError err st) \<longrightarrow>
         StackError_Cause h w = Some err \<and> StackError_Unwrap h w = Some err)
   \<and> (\<forall>cause code msg. lookup h w = Some (CauseMsgCodeError cause code msg) \<longrightarrow>
         CauseMsgCodeError_Cause h w = Some cause \<and> CauseMsgCodeError_Unwrap h w = Some cause)"
  by (simp add: StackError_Unwrap_def StackError_Cause_def CauseMsgCodeError_Unwrap_def
      CauseMsgCodeError_Cause_def)

theorem unwrap_is_cause_witness:
  "lookup [MsgCodeErr 0 ''boom'' [1], CauseMsgCodeError (Ptr 0) 0 ''read'', StackError (Ptr 1) [2]] 2
     = Some (StackError (Ptr 1) [2])
   \<and> StackError_Cause [MsgCodeErr 0 ''boom'' [1], CauseMsgCodeError (Ptr 0) 0 ''read'', StackError (Ptr 1) [2]] 2
     = Some (Ptr 1)
   \<and> StackError_Unwrap [MsgCodeErr 0 ''boom'' [1], CauseMsgCodeError (Ptr 0) 0 ''read'', StackError (Ptr 1) [2]] 2
     = Some (Ptr 1)
   \<and> lookup [MsgCodeErr 0 ''boom'' [1], CauseMsgCodeError (Ptr 0) 0 ''read'', StackError (Ptr 1) [2]] 1
     = Some (CauseMsgCodeError (Ptr 0) 0 ''read'')
   \<and> CauseMsgCodeError_Cause [MsgCodeErr 0 ''boom'' [1], CauseMsgCodeError (Ptr 0) 0 ''read'', StackError (Ptr 1) [2]] 1
     = Some (Ptr 0)
   \<and> CauseMsgCodeError_Unwrap [MsgCodeErr 0 ''boom'' [1], CauseMsgCodeError (Ptr 0) 0 ''read'', StackError (Ptr 1) [2]] 1
     = Some (Ptr 0)"
proof -
  let ?H = "[MsgCodeErr 0 ''boom'' [1], CauseMsgCodeError (Ptr 0) 0 ''read'', StackError (Ptr 1) [2]]"
  have l2: "lookup ?H 2 = Some (StackError (Ptr 1) [2])" by (simp add: lookup_def)
  have l1: "lookup ?H 1 = Some (CauseMsgCodeError (Ptr 0) 0 ''read'')" by (simp add: lookup_def)
  show ?thesis
    using l1 l2 unwrap_is_cause [of ?H 2] unwrap_is_cause [of ?H 1] by simp
qed

end
